theory Spec2Isabelle
  imports Main "HOL-Library.Word" "HOL-Library.Sublist"
begin

section \<open>The FCM push adapter (server/push/fcm/push\_fcm.go)\<close>

text \<open>
  The adapter has no return values: everything it does is a call to a collaborator
  (the FCM client, the device store, the logger).  The embedding therefore makes each
  function return the ordered list of the calls it issues, its \<^emph>\<open>trace\<close>.  The answers
  of the collaborators are inputs, gathered in the record \<open>Env\<close>.
\<close>

subsection \<open>Constants\<close>

definition bufferSize :: nat where
  "bufferSize = 1024"

definition pushBatchSize :: nat where
  "pushBatchSize = 100"

definition subBatchSize :: nat where
  "subBatchSize = 1000"

subsection \<open>Data\<close>

text \<open>\<open>types.Uid\<close> is a \<open>uint64\<close>.\<close>

type_synonym Uid = "64 word"

text \<open>
  A provider error is opaque to the adapter; it is only ever passed to the seven
  predicates of the SDK and to \<open>Error()\<close>.  The record holds what these answer.
\<close>

record fcm_error =
  IsQuotaExceeded :: bool
  IsUnavailable :: bool
  IsInternal :: bool
  IsSenderIDMismatch :: bool
  IsInvalidArgument :: bool
  IsThirdPartyAuthError :: bool
  IsUnregistered :: bool
  ErrorText :: string

text \<open>\<open>fbmsg.Message\<close>: the adapter reads the field \<open>Token\<close> only.\<close>

record Message =
  Token :: string
  Data :: "(string \<times> string) list"

text \<open>\<open>fbmsg.ErrorInfo\<close> and \<open>fbmsg.TopicManagementResponse\<close>; the counts and the index are Go \<open>int\<close>s.\<close>

record ErrorInfo =
  Index :: int
  Reason :: string

record TopicManagementResponse =
  SuccessCount :: int
  FailureCount :: int
  Errors :: "ErrorInfo list"

text \<open>\<open>push.ChannelReq\<close>.\<close>

record ChannelReq =
  Uid :: Uid
  DeviceID :: string
  Channel :: string
  Unsub :: bool

text \<open>
  \<open>configType\<close>.  \<open>Credentials\<close> is \<open>None\<close> for a nil \<open>json.RawMessage\<close>; the three
  platform sections are pointers, kept as opaque addresses.
\<close>

record configType =
  Enabled :: bool
  DryRun :: bool
  Credentials :: "string option"
  CredentialsFile :: string
  TimeToLive :: int
  ApnsBundleID :: string
  Android :: "nat option"
  Apns :: "nat option"
  Webpush :: "nat option"

subsection \<open>Traces\<close>

datatype level = Warn | Err

text \<open>An argument of \<open>Println\<close>.\<close>

datatype logarg = Str string | Num int | Flag bool | UidV Uid | ErrV fcm_error

datatype event =
    CallSend Message
  | CallSendDryRun Message
  | CallSubscribeToTopic "string list" string
  | CallUnsubscribeFromTopic "string list" string
  | CallDevicesDelete Uid string
  | Log level "logarg list"
  | Panic

text \<open>\<open>Panic\<close> is Go's run-time panic of an index out of range; it ends the trace.\<close>

subsection \<open>Collaborators\<close>

text \<open>
  The functions of this package and of the SDK that the file calls and does not define.
  The calls of the FCM client take, as their first argument, the number of calls made
  to the client before in the same run, so that two calls with equal arguments can be
  answered differently.  A send answers \<open>None\<close> for a nil error; a topic call answers
  \<open>Inl\<close> the error or \<open>Inr\<close> the response.
\<close>

record 'r Env =
  PrepareNotifications :: "'r \<Rightarrow> configType \<Rightarrow> Message list \<times> Uid list"
  DevicesForUser :: "Uid \<Rightarrow> string list"
  ChannelsForUser :: "Uid \<Rightarrow> string list"
  UserId :: "Uid \<Rightarrow> string"
  Send :: "nat \<Rightarrow> Message \<Rightarrow> fcm_error option"
  SendDryRun :: "nat \<Rightarrow> Message \<Rightarrow> fcm_error option"
  SubscribeToTopic :: "nat \<Rightarrow> string list \<Rightarrow> string \<Rightarrow> fcm_error + TopicManagementResponse"
  UnsubscribeFromTopic :: "nat \<Rightarrow> string list \<Rightarrow> string \<Rightarrow> fcm_error + TopicManagementResponse"
  DevicesDelete :: "Uid \<Rightarrow> string \<Rightarrow> string option"

subsection \<open>sendFcm\<close>

text \<open>How one pass through a loop body ends.\<close>

datatype ctl = Next | Return | Panicked

text \<open>Lines 125 to 129: the call, and the event that records it.\<close>

definition clientSend :: "'r Env \<Rightarrow> configType \<Rightarrow> nat \<Rightarrow> Message \<Rightarrow> fcm_error option" where
  "clientSend env config i m = (if DryRun config then SendDryRun env i m else Send env i m)"

definition sendEvent :: "configType \<Rightarrow> Message \<Rightarrow> event" where
  "sendEvent config m = (if DryRun config then CallSendDryRun m else CallSend m)"

text \<open>Lines 131 to 154: what follows an answer of the provider.\<close>

definition onSendResult ::
  "'r Env \<Rightarrow> Uid list \<Rightarrow> nat \<Rightarrow> Message \<Rightarrow> fcm_error option \<Rightarrow> event list \<times> ctl" where
  "onSendResult env uids i m r =
     (case r of
        None \<Rightarrow> ([], Next)
      | Some err \<Rightarrow>
          if IsQuotaExceeded err \<or> IsUnavailable err \<or> IsInternal err then
            ([Log Warn [Str ''fcm transient failure:'', Str (ErrorText err)]], Return)
          else if IsSenderIDMismatch err \<or> IsInvalidArgument err \<or> IsThirdPartyAuthError err then
            ([Log Warn [Str ''fcm invalid config:'', Str (ErrorText err)]], Return)
          else if IsUnregistered err then
            (if i < length uids then
               (Log Warn [Str ''fcm invalid token:'', Str (ErrorText err)] #
                CallDevicesDelete (uids ! i) (Token m) #
                (case DevicesDelete env (uids ! i) (Token m) of
                   None \<Rightarrow> []
                 | Some derr \<Rightarrow> [Log Warn [Str ''fcm failed to delete invalid token:'', Str derr]]),
                Next)
             else
               ([Log Warn [Str ''fcm invalid token:'', Str (ErrorText err)], Panic], Panicked))
          else
            ([Log Warn [Str ''fcm unrecognized error:'', Str (ErrorText err)]], Return))"

text \<open>
  Lines 123 to 155: the loop over \<open>messages\<close>; \<open>i\<close> is the index of the head of the
  list still to send.
\<close>

fun sendFcm_loop :: "'r Env \<Rightarrow> configType \<Rightarrow> Uid list \<Rightarrow> nat \<Rightarrow> Message list \<Rightarrow> event list" where
  "sendFcm_loop env config uids i [] = []"
| "sendFcm_loop env config uids i (m # ms) =
     (case onSendResult env uids i m (clientSend env config i m) of
        (evs, Next) \<Rightarrow> sendEvent config m # evs @ sendFcm_loop env config uids (Suc i) ms
      | (evs, _) \<Rightarrow> sendEvent config m # evs)"

definition sendFcm :: "'r Env \<Rightarrow> 'r \<Rightarrow> configType \<Rightarrow> event list" where
  "sendFcm env rcpt config =
     (case PrepareNotifications env rcpt config of
        (messages, uids) \<Rightarrow> sendFcm_loop env config uids 0 messages)"

subsection \<open>handleSubErrors\<close>

text \<open>Lines 230 to 233: \<open>devices[errinfo.Index]\<close> panics outside \<open>0 \<le> Index < len(devices)\<close>.\<close>

fun handleSubErrors_loop :: "Uid \<Rightarrow> string list \<Rightarrow> ErrorInfo list \<Rightarrow> event list" where
  "handleSubErrors_loop uid devices [] = []"
| "handleSubErrors_loop uid devices (errinfo # rest) =
     (if 0 \<le> Index errinfo \<and> Index errinfo < int (length devices) then
        Log Warn [Str ''fcm sub/unsub error'', Str (Reason errinfo), UidV uid,
                  Str (devices ! nat (Index errinfo))] #
        handleSubErrors_loop uid devices rest
      else [Panic])"

definition handleSubErrors :: "TopicManagementResponse \<Rightarrow> Uid \<Rightarrow> string list \<Rightarrow> event list" where
  "handleSubErrors response uid devices =
     (if FailureCount response \<le> 0 then []
      else handleSubErrors_loop uid devices (Errors response))"

subsection \<open>processSubscription\<close>

text \<open>Lines 186 to 190 and 204 to 208: the call, and the event that records it.\<close>

definition clientTopic ::
  "'r Env \<Rightarrow> ChannelReq \<Rightarrow> nat \<Rightarrow> string list \<Rightarrow> string \<Rightarrow> fcm_error + TopicManagementResponse" where
  "clientTopic env req k devices channel =
     (if Unsub req then UnsubscribeFromTopic env k devices channel
      else SubscribeToTopic env k devices channel)"

definition topicEvent :: "ChannelReq \<Rightarrow> string list \<Rightarrow> string \<Rightarrow> event" where
  "topicEvent req devices channel =
     (if Unsub req then CallUnsubscribeFromTopic devices channel
      else CallSubscribeToTopic devices channel)"

text \<open>
  Lines 159 to 170: the four locals \<open>(channel, devices, device, channels)\<close> after the
  resolution; a local never assigned keeps Go's zero value.
\<close>

definition resolve :: "'r Env \<Rightarrow> ChannelReq \<Rightarrow> string \<times> string list \<times> string \<times> string list" where
  "resolve env req =
     (if Channel req \<noteq> [] then (Channel req, DevicesForUser env (Uid req), [], [])
      else if DeviceID req \<noteq> [] then ([], [], DeviceID req, ChannelsForUser env (Uid req))
      else ([], [], [], []))"

text \<open>Lines 203 to 216: the loop over \<open>channels\<close>; \<open>k\<close> counts the calls made before.\<close>

fun channels_loop :: "'r Env \<Rightarrow> ChannelReq \<Rightarrow> string list \<Rightarrow> nat \<Rightarrow> string list \<Rightarrow> event list" where
  "channels_loop env req devices k [] = []"
| "channels_loop env req devices k (c # cs) =
     (case clientTopic env req k devices c of
        Inl err \<Rightarrow>
          [topicEvent req devices c,
           Log Warn [Str ''fcm: sub or upsub failed'', Flag (Unsub req), ErrV err]]
      | Inr resp \<Rightarrow>
          (let evs = handleSubErrors resp (Uid req) devices in
           if Panic \<in> set evs then topicEvent req devices c # evs
           else topicEvent req devices c # evs @ channels_loop env req devices (Suc k) cs))"

definition processSubscription :: "'r Env \<Rightarrow> ChannelReq \<Rightarrow> event list" where
  "processSubscription env req =
     (case resolve env req of
        (channel, devices0, device, channels) \<Rightarrow>
          if (length devices0 = 0 \<and> device = []) \<or> (length channels = 0 \<and> channel = []) then []
          else
            (let devices = (if length devices0 > subBatchSize then take subBatchSize devices0 else devices0);
                 warn = (if length devices0 > subBatchSize then
                           [Log Warn [Str ''fcm: user'', Str (UserId env (Uid req)), Str ''has more than'',
                                      Num (int subBatchSize), Str ''devices'']]
                         else [])
             in
               if channel \<noteq> [] \<and> length devices > 0 then
                 warn @ topicEvent req devices channel #
                   (case clientTopic env req 0 devices channel of
                      Inl err \<Rightarrow> [Log Warn [Str ''fcm: sub or upsub failed'', Flag (Unsub req), ErrV err]]
                    | Inr resp \<Rightarrow> handleSubErrors resp (Uid req) devices)
               else if device \<noteq> [] \<and> length channels > 0 then
                 warn @ channels_loop env req [device] 0 channels
               else
                 warn @ [Log Err [Str ''fcm: user'', Str (UserId env (Uid req)),
                                  Str ''invalid combination of sub/unsub channels/devices'',
                                  Num (int (length devices)), Num (int (length channels))]]))"

subsection \<open>The handler\<close>

text \<open>
  A buffered Go channel is \<open>None\<close> when nil, else its capacity and the values it holds,
  oldest first.  A send on a nil channel or on a full one blocks: \<open>chan_send\<close> is
  \<open>None\<close> there, and the new channel otherwise.
\<close>

type_synonym 'a chan = "(nat \<times> 'a list) option"

definition make_chan :: "nat \<Rightarrow> 'a chan" where
  "make_chan n = Some (n, [])"

definition chan_send :: "'a chan \<Rightarrow> 'a \<Rightarrow> 'a chan option" where
  "chan_send c v =
     (case c of
        None \<Rightarrow> None
      | Some (n, buf) \<Rightarrow> if length buf < n then Some (Some (n, buf @ [v])) else None)"

text \<open>\<open>Handler\<close>; \<open>ctx\<close> and \<open>client\<close> are kept as opaque addresses, \<open>None\<close> when nil.\<close>

record 'r Handler =
  input :: "'r chan"
  channel :: "ChannelReq chan"
  stop :: "bool chan"
  ctx :: "nat option"
  client :: "nat option"

text \<open>Lines 101 to 103 of \<open>Init\<close>: the three channels are made.\<close>

definition Init_chans :: "'r Handler \<Rightarrow> 'r Handler" where
  "Init_chans h = h\<lparr>input := make_chan bufferSize, channel := make_chan bufferSize, stop := make_chan 1\<rparr>"

definition IsReady :: "'r Handler \<Rightarrow> bool" where
  "IsReady h = (input h \<noteq> None)"

text \<open>\<open>Stop\<close>: \<open>None\<close> when the send blocks, else the handler after it.\<close>

definition Stop :: "'r Handler \<Rightarrow> 'r Handler option" where
  "Stop h =
     (case chan_send (stop h) True of
        None \<Rightarrow> None
      | Some c \<Rightarrow> Some (h\<lparr>stop := c\<rparr>))"

subsection \<open>Reading a trace\<close>

text \<open>The calls to the FCM client in a trace, and the deletes in the device store.\<close>

fun is_provider_call :: "event \<Rightarrow> bool" where
  "is_provider_call (CallSend m) = True"
| "is_provider_call (CallSendDryRun m) = True"
| "is_provider_call (CallSubscribeToTopic ds c) = True"
| "is_provider_call (CallUnsubscribeFromTopic ds c) = True"
| "is_provider_call ev = False"

definition provider_calls :: "event list \<Rightarrow> event list" where
  "provider_calls tr = filter is_provider_call tr"

fun is_delete :: "event \<Rightarrow> bool" where
  "is_delete (CallDevicesDelete u t) = True"
| "is_delete ev = False"

definition deletes :: "event list \<Rightarrow> event list" where
  "deletes tr = filter is_delete tr"

fun is_log :: "level \<Rightarrow> event \<Rightarrow> bool" where
  "is_log l (Log l' args) = (l = l')"
| "is_log l ev = False"

text \<open>The real send of a trace read as the validating one.\<close>

fun asDryRun :: "event \<Rightarrow> event" where
  "asDryRun (CallSend m) = CallSendDryRun m"
| "asDryRun ev = ev"

text \<open>
  The class of a provider error: the branch of lines 132 to 153 that takes it, the
  checks tried in the order of the source.
\<close>

datatype outcome = Transient | ConfigError | InvalidToken | Unknown

definition classify :: "fcm_error \<Rightarrow> outcome" where
  "classify err =
     (if IsQuotaExceeded err \<or> IsUnavailable err \<or> IsInternal err then Transient
      else if IsSenderIDMismatch err \<or> IsInvalidArgument err \<or> IsThirdPartyAuthError err then ConfigError
      else if IsUnregistered err then InvalidToken
      else Unknown)"

text \<open>
  A response whose inspection reads inside the device list: no failure is counted, or
  every reported index is a position of the list.
\<close>

definition well_indexed :: "TopicManagementResponse \<Rightarrow> string list \<Rightarrow> bool" where
  "well_indexed response devices =
     (FailureCount response \<le> 0 \<or>
      (\<forall>e\<in>set (Errors response). 0 \<le> Index e \<and> Index e < int (length devices)))"

subsection \<open>Concrete inputs\<close>

text \<open>
  A configuration, messages, errors and collaborators to run the functions on: the
  collaborators answer the \<open>i\<close>-th send with \<open>sends i\<close> and the \<open>k\<close>-th topic call with
  \<open>topics k\<close>, prepare three messages for the users 1, 2 and 3, and resolve every user
  to the devices \<open>devs\<close> and the channels \<open>chans\<close>.
\<close>

definition example_config :: configType where
  "example_config = \<lparr>Enabled = True, DryRun = False, Credentials = Some ''{}'', CredentialsFile = [],
     TimeToLive = 3600, ApnsBundleID = [], Android = None, Apns = None, Webpush = None\<rparr>"

definition msg :: "string \<Rightarrow> Message" where
  "msg t = \<lparr>Token = t, Data = []\<rparr>"

definition example_error :: "bool \<Rightarrow> bool \<Rightarrow> fcm_error" where
  "example_error unavailable unregistered =
     \<lparr>IsQuotaExceeded = False, IsUnavailable = unavailable, IsInternal = False,
      IsSenderIDMismatch = False, IsInvalidArgument = False, IsThirdPartyAuthError = False,
      IsUnregistered = unregistered, ErrorText = ''e''\<rparr>"

definition example_env ::
  "(nat \<Rightarrow> fcm_error option) \<Rightarrow> (nat \<Rightarrow> fcm_error + TopicManagementResponse) \<Rightarrow>
   string list \<Rightarrow> string list \<Rightarrow> unit Env" where
  "example_env sends topics devs chans =
     \<lparr>PrepareNotifications = (\<lambda>r c. ([msg ''t1'', msg ''t2'', msg ''t3''], [1, 2, 3])),
      DevicesForUser = (\<lambda>u. devs), ChannelsForUser = (\<lambda>u. chans), UserId = (\<lambda>u. ''usr''),
      Send = (\<lambda>i m. sends i), SendDryRun = (\<lambda>i m. sends i),
      SubscribeToTopic = (\<lambda>k ds c. topics k), UnsubscribeFromTopic = (\<lambda>k ds c. topics k),
      DevicesDelete = (\<lambda>u t. None)\<rparr>"

text \<open>
  A response that reports one failure for each of the given indexes, and a request of
  the user 7.
\<close>

definition example_response :: "int list \<Rightarrow> TopicManagementResponse" where
  "example_response ixs =
     \<lparr>SuccessCount = 1, FailureCount = int (length ixs),
      Errors = map (\<lambda>i. \<lparr>Index = i, Reason = ''r''\<rparr>) ixs\<rparr>"

definition example_req :: "string \<Rightarrow> string \<Rightarrow> bool \<Rightarrow> ChannelReq" where
  "example_req dev chan unsub = \<lparr>Uid = 7, DeviceID = dev, Channel = chan, Unsub = unsub\<rparr>"

section \<open>Properties of sendFcm\<close>

subsection \<open>The loop\<close>

lemma onSendResult_no_calls:
  "provider_calls (fst (onSendResult env uids i m r)) = []"
  by (simp add: onSendResult_def provider_calls_def split: option.split)

lemma onSendResult_ok:
  "onSendResult env uids i m None = ([], Next)"
  by (simp add: onSendResult_def)

lemma onSendResult_invalid_token:
  "classify e = InvalidToken \<Longrightarrow> i < length uids \<Longrightarrow>
   snd (onSendResult env uids i m (Some e)) = Next \<and>
   deletes (fst (onSendResult env uids i m (Some e))) = [CallDevicesDelete (uids ! i) (Token m)]"
  by (simp add: onSendResult_def classify_def deletes_def split: if_splits option.split)

lemma onSendResult_abort:
  "classify e \<noteq> InvalidToken \<Longrightarrow>
   \<exists>t. onSendResult env uids i m (Some e) = ([Log Warn [Str t, Str (ErrorText e)]], Return)"
  by (simp add: onSendResult_def classify_def split: if_splits)

lemma sendFcm_loop_all_ok:
  "\<forall>j<length ms. clientSend env config (i + j) (ms ! j) = None \<Longrightarrow>
   sendFcm_loop env config uids i ms = map (sendEvent config) ms"
proof (induction ms arbitrary: i)
  case Nil
  show ?case by simp
next
  case (Cons m ms)
  from Cons.prems have hd: "clientSend env config i m = None" by force
  have "\<forall>j<length ms. clientSend env config (Suc i + j) (ms ! j) = None"
  proof (intro allI impI)
    fix j assume "j < length ms"
    with Cons.prems have "clientSend env config (i + Suc j) ((m # ms) ! Suc j) = None" by force
    then show "clientSend env config (Suc i + j) (ms ! j) = None" by simp
  qed
  from Cons.IH [OF this] hd show ?case by (simp add: onSendResult_ok)
qed

lemma sendFcm_loop_append:
  "\<forall>j<length xs. snd (onSendResult env uids (i + j) (xs ! j) (clientSend env config (i + j) (xs ! j))) = Next \<Longrightarrow>
   sendFcm_loop env config uids i (xs @ ys) =
     sendFcm_loop env config uids i xs @ sendFcm_loop env config uids (i + length xs) ys"
proof (induction xs arbitrary: i)
  case Nil
  show ?case by simp
next
  case (Cons x xs)
  from Cons.prems have hd: "snd (onSendResult env uids i x (clientSend env config i x)) = Next" by force
  have "\<forall>j<length xs. snd (onSendResult env uids (Suc i + j) (xs ! j) (clientSend env config (Suc i + j) (xs ! j))) = Next"
  proof (intro allI impI)
    fix j assume "j < length xs"
    with Cons.prems have "snd (onSendResult env uids (i + Suc j) ((x # xs) ! Suc j) (clientSend env config (i + Suc j) ((x # xs) ! Suc j))) = Next"
      by force
    then show "snd (onSendResult env uids (Suc i + j) (xs ! j) (clientSend env config (Suc i + j) (xs ! j))) = Next" by simp
  qed
  from Cons.IH [OF this] hd show ?case
    by (cases "onSendResult env uids i x (clientSend env config i x)") simp
qed

lemma sendFcm_loop_cut:
  "snd (onSendResult env uids (i + length xs) y (clientSend env config (i + length xs) y)) \<noteq> Next \<Longrightarrow>
   sendFcm_loop env config uids i (xs @ y # ys) = sendFcm_loop env config uids i (xs @ [y])"
proof (induction xs arbitrary: i)
  case Nil
  then show ?case
    by (cases "onSendResult env uids i y (clientSend env config i y)") (auto split: ctl.split)
next
  case (Cons x xs)
  from Cons.prems have "snd (onSendResult env uids (Suc i + length xs) y (clientSend env config (Suc i + length xs) y)) \<noteq> Next"
    by simp
  from Cons.IH [OF this] show ?case
    by (cases "onSendResult env uids i x (clientSend env config i x)") (simp split: ctl.split)
qed

lemma sendFcm_loop_calls_prefix:
  "prefix (provider_calls (sendFcm_loop env config uids i ms)) (map (sendEvent config) ms)"
proof (induction ms arbitrary: i)
  case Nil
  show ?case by (simp add: provider_calls_def)
next
  case (Cons m ms)
  have c: "is_provider_call (sendEvent config m)" by (simp add: sendEvent_def)
  have n: "filter is_provider_call (fst (onSendResult env uids i m (clientSend env config i m))) = []"
    using onSendResult_no_calls [of env uids i m] by (simp add: provider_calls_def)
  from Cons.IH [of "Suc i"] c n show ?case
    by (cases "onSendResult env uids i m (clientSend env config i m)")
       (auto simp: provider_calls_def split: ctl.split)
qed

lemma sendEvent_is_call: "filter is_provider_call (map (sendEvent config) ms) = map (sendEvent config) ms"
  by (induction ms) (simp_all add: sendEvent_def)

lemma sendEvent_not_delete: "filter is_delete (map (sendEvent config) ms) = []"
  by (induction ms) (simp_all add: sendEvent_def)

lemma sendFcm_loop_deletes_cut:
  "snd (onSendResult env uids (i + length xs) y (clientSend env config (i + length xs) y)) = Return \<Longrightarrow>
   deletes (fst (onSendResult env uids (i + length xs) y (clientSend env config (i + length xs) y))) = [] \<Longrightarrow>
   deletes (sendFcm_loop env config uids i (xs @ [y])) = deletes (sendFcm_loop env config uids i xs)"
proof (induction xs arbitrary: i)
  case Nil
  then show ?case
    by (cases "onSendResult env uids i y (clientSend env config i y)")
       (simp add: deletes_def sendEvent_def)
next
  case (Cons x xs)
  from Cons.prems
  have "snd (onSendResult env uids (Suc i + length xs) y (clientSend env config (Suc i + length xs) y)) = Return"
    and "deletes (fst (onSendResult env uids (Suc i + length xs) y (clientSend env config (Suc i + length xs) y))) = []"
    by simp_all
  from Cons.IH [OF this] show ?case
    by (cases "onSendResult env uids i x (clientSend env config i x)")
       (simp add: deletes_def split: ctl.split)
qed

lemma asDryRun_no_calls: "provider_calls evs = [] \<Longrightarrow> map asDryRun evs = evs"
proof (induction evs)
  case Nil
  show ?case by simp
next
  case (Cons ev evs)
  then show ?case by (cases ev) (simp_all add: provider_calls_def)
qed

lemma sendFcm_loop_asDryRun:
  assumes same: "\<forall>i m. SendDryRun env i m = Send env i m"
    and d: "DryRun c1" and r: "\<not> DryRun c2"
  shows "sendFcm_loop env c1 uids i ms = map asDryRun (sendFcm_loop env c2 uids i ms)"
proof (induction ms arbitrary: i)
  case Nil
  show ?case by simp
next
  case (Cons m ms)
  have cs: "clientSend env c1 i m = clientSend env c2 i m"
    using same d r by (simp add: clientSend_def)
  have ev: "sendEvent c1 m = asDryRun (sendEvent c2 m)"
    using d r by (simp add: sendEvent_def)
  have "map asDryRun (fst (onSendResult env uids i m (clientSend env c2 i m))) =
          fst (onSendResult env uids i m (clientSend env c2 i m))"
    by (rule asDryRun_no_calls) (rule onSendResult_no_calls)
  with cs ev Cons.IH [of "Suc i"] show ?case
    by (cases "onSendResult env uids i m (clientSend env c2 i m)") (simp split: ctl.split)
qed

lemma sendFcm_loop_calls_subset:
  "ev \<in> set (sendFcm_loop env config uids i ms) \<Longrightarrow> is_provider_call ev \<Longrightarrow>
   ev \<in> set (map (sendEvent config) ms)"
proof -
  assume "ev \<in> set (sendFcm_loop env config uids i ms)" and "is_provider_call ev"
  then have "ev \<in> set (provider_calls (sendFcm_loop env config uids i ms))"
    by (simp add: provider_calls_def)
  with set_mono_prefix [OF sendFcm_loop_calls_prefix [of env config uids i ms]]
  show ?thesis by blast
qed

lemma onSendResult_env_Send: "onSendResult (env\<lparr>Send := f\<rparr>) uids i m r = onSendResult env uids i m r"
  by (simp add: onSendResult_def split: option.split)

lemma onSendResult_env_SendDryRun: "onSendResult (env\<lparr>SendDryRun := f\<rparr>) uids i m r = onSendResult env uids i m r"
  by (simp add: onSendResult_def split: option.split)

lemma sendFcm_loop_ignores_Send:
  "DryRun config \<Longrightarrow>
   sendFcm_loop (env\<lparr>Send := f\<rparr>) config uids i ms = sendFcm_loop env config uids i ms"
  by (induction ms arbitrary: i) (simp_all add: onSendResult_env_Send clientSend_def)

lemma sendFcm_loop_ignores_SendDryRun:
  "\<not> DryRun config \<Longrightarrow>
   sendFcm_loop (env\<lparr>SendDryRun := f\<rparr>) config uids i ms = sendFcm_loop env config uids i ms"
  by (induction ms arbitrary: i) (simp_all add: onSendResult_env_SendDryRun clientSend_def)

lemma sendFcm_loop_calls_reach:
  "n \<le> length ms \<Longrightarrow> \<forall>j<n. clientSend env config (i + j) (ms ! j) = None \<Longrightarrow>
   prefix (map (sendEvent config) (take (Suc n) ms)) (provider_calls (sendFcm_loop env config uids i ms))"
proof (induction ms arbitrary: i n)
  case Nil
  then show ?case by simp
next
  case (Cons m ms)
  have c: "is_provider_call (sendEvent config m)" by (simp add: sendEvent_def)
  show ?case
  proof (cases n)
    case 0
    with c show ?thesis
      by (cases "onSendResult env uids i m (clientSend env config i m)")
         (simp add: provider_calls_def split: ctl.split)
  next
    case (Suc n')
    from Cons.prems(2) Suc have hd: "clientSend env config i m = None" by force
    have le: "n' \<le> length ms" using Cons.prems(1) Suc by simp
    have ok: "\<forall>j<n'. clientSend env config (Suc i + j) (ms ! j) = None"
    proof (intro allI impI)
      fix j assume "j < n'"
      with Cons.prems(2) Suc have "clientSend env config (i + Suc j) ((m # ms) ! Suc j) = None" by blast
      then show "clientSend env config (Suc i + j) (ms ! j) = None" by simp
    qed
    from Cons.IH [OF le ok] hd c Suc show ?thesis
      by (simp add: onSendResult_ok provider_calls_def)
  qed
qed

lemma sendFcm_loop_variants:
  assumes d: "DryRun c1" and r: "\<not> DryRun c2"
  shows "sendFcm_loop (env\<lparr>SendDryRun := g\<rparr>) c1 uids i ms =
         map asDryRun (sendFcm_loop (env\<lparr>Send := g\<rparr>) c2 uids i ms)"
proof -
  let ?both = "env\<lparr>SendDryRun := g, Send := g\<rparr>"
  have sw: "?both = env\<lparr>Send := g, SendDryRun := g\<rparr>" by simp
  have same: "\<forall>i m. SendDryRun ?both i m = Send ?both i m" by simp
  have "sendFcm_loop ?both c1 uids i ms = map asDryRun (sendFcm_loop ?both c2 uids i ms)"
    by (rule sendFcm_loop_asDryRun [OF same d r])
  moreover have "sendFcm_loop ?both c1 uids i ms = sendFcm_loop (env\<lparr>SendDryRun := g\<rparr>) c1 uids i ms"
    by (rule sendFcm_loop_ignores_Send [OF d])
  moreover have "sendFcm_loop ?both c2 uids i ms = sendFcm_loop (env\<lparr>Send := g\<rparr>) c2 uids i ms"
    unfolding sw by (rule sendFcm_loop_ignores_SendDryRun [OF r])
  ultimately show ?thesis by simp
qed

lemma sendFcm_flag_labels:
  "(DryRun config \<longrightarrow>
      (\<forall>m. CallSend m \<notin> set (sendFcm env rcpt config)) \<and>
      prefix (provider_calls (sendFcm env rcpt config))
             (map CallSendDryRun (fst (PrepareNotifications env rcpt config)))) \<and>
   (\<not> DryRun config \<longrightarrow>
      (\<forall>m. CallSendDryRun m \<notin> set (sendFcm env rcpt config)) \<and>
      prefix (provider_calls (sendFcm env rcpt config))
             (map CallSend (fst (PrepareNotifications env rcpt config))))"
proof -
  obtain messages uids where prep: "PrepareNotifications env rcpt config = (messages, uids)"
    by (cases "PrepareNotifications env rcpt config")
  have tr: "sendFcm env rcpt config = sendFcm_loop env config uids 0 messages"
    using prep by (simp add: sendFcm_def)
  have pf: "prefix (provider_calls (sendFcm env rcpt config)) (map (sendEvent config) messages)"
    unfolding tr by (rule sendFcm_loop_calls_prefix)
  have sub: "ev \<in> set (map (sendEvent config) messages)"
    if "ev \<in> set (sendFcm env rcpt config)" and "is_provider_call ev" for ev
    using that unfolding tr by (rule sendFcm_loop_calls_subset)
  have a: "(\<forall>m. CallSend m \<notin> set (sendFcm env rcpt config)) \<and>
      prefix (provider_calls (sendFcm env rcpt config))
             (map CallSendDryRun (fst (PrepareNotifications env rcpt config)))" if d: "DryRun config"
  proof -
    from d have se: "sendEvent config = CallSendDryRun" by (simp add: sendEvent_def fun_eq_iff)
    have "CallSend m \<notin> set (sendFcm env rcpt config)" for m
      using sub [of "CallSend m"] by (auto simp: se)
    with pf show ?thesis by (simp add: se prep)
  qed
  have b: "(\<forall>m. CallSendDryRun m \<notin> set (sendFcm env rcpt config)) \<and>
      prefix (provider_calls (sendFcm env rcpt config))
             (map CallSend (fst (PrepareNotifications env rcpt config)))" if d: "\<not> DryRun config"
  proof -
    from d have se: "sendEvent config = CallSend" by (simp add: sendEvent_def fun_eq_iff)
    have "CallSendDryRun m \<notin> set (sendFcm env rcpt config)" for m
      using sub [of "CallSendDryRun m"] by (auto simp: se)
    with pf show ?thesis by (simp add: se prep)
  qed
  from a b show ?thesis by blast
qed

lemma sendFcm_flag_reach:
  assumes n: "n \<le> length (fst (PrepareNotifications env rcpt config))"
    and ok: "\<forall>j<n. clientSend env config j (fst (PrepareNotifications env rcpt config) ! j) = None"
  shows "prefix (map (sendEvent config) (take (Suc n) (fst (PrepareNotifications env rcpt config))))
                (provider_calls (sendFcm env rcpt config))"
proof -
  obtain messages uids where prep: "PrepareNotifications env rcpt config = (messages, uids)"
    by (cases "PrepareNotifications env rcpt config")
  from n ok prep have n': "n \<le> length messages"
    and ok': "\<forall>j<n. clientSend env config (0 + j) (messages ! j) = None"
    by simp_all
  from sendFcm_loop_calls_reach [OF n' ok', of uids] prep show ?thesis
    by (simp add: sendFcm_def)
qed

subsection \<open>Deliveries\<close>

text \<open>
  C7.  When every send of a delivery of \<open>N\<close> prepared messages succeeds, the trace is
  exactly the \<open>N\<close> sends, one per message in the order of the list, and holds no delete
  in the device store.
\<close>

theorem sendFcm_all_succeed:
  assumes prep: "PrepareNotifications env rcpt config = (messages, uids)"
    and ok: "\<forall>i<length messages. clientSend env config i (messages ! i) = None"
  shows "sendFcm env rcpt config = map (sendEvent config) messages \<and>
         provider_calls (sendFcm env rcpt config) = map (sendEvent config) messages \<and>
         length (provider_calls (sendFcm env rcpt config)) = length messages \<and>
         deletes (sendFcm env rcpt config) = []"
proof -
  from ok have "\<forall>j<length messages. clientSend env config (0 + j) (messages ! j) = None" by simp
  then have tr: "sendFcm_loop env config uids 0 messages = map (sendEvent config) messages"
    by (rule sendFcm_loop_all_ok)
  have c: "filter is_provider_call (map (sendEvent config) messages) = map (sendEvent config) messages"
    by (induction messages) (simp_all add: sendEvent_def)
  have d: "filter is_delete (map (sendEvent config) messages) = []"
    by (induction messages) (simp_all add: sendEvent_def)
  from prep tr c d show ?thesis
    by (simp add: sendFcm_def provider_calls_def deletes_def)
qed

theorem sendFcm_all_succeed_witness:
  "sendFcm (example_env (\<lambda>i. None) (\<lambda>k. Inl (example_error True False)) [] []) () example_config
     = [CallSend (msg ''t1''), CallSend (msg ''t2''), CallSend (msg ''t3'')] \<and>
   provider_calls (sendFcm (example_env (\<lambda>i. None) (\<lambda>k. Inl (example_error True False)) [] []) () example_config)
     = [CallSend (msg ''t1''), CallSend (msg ''t2''), CallSend (msg ''t3'')] \<and>
   length (provider_calls (sendFcm (example_env (\<lambda>i. None) (\<lambda>k. Inl (example_error True False)) [] []) () example_config)) = 3 \<and>
   deletes (sendFcm (example_env (\<lambda>i. None) (\<lambda>k. Inl (example_error True False)) [] []) () example_config) = []"
proof -
  let ?env = "example_env (\<lambda>i. None) (\<lambda>k. Inl (example_error True False)) [] []"
  let ?ms = "[msg ''t1'', msg ''t2'', msg ''t3'']"
  have p: "PrepareNotifications ?env () example_config = (?ms, [1, 2, 3])"
    by (simp add: example_env_def)
  have ok: "\<forall>i<length ?ms. clientSend ?env example_config i (?ms ! i) = None"
    by (simp add: clientSend_def example_env_def)
  have se: "\<And>m. sendEvent example_config m = CallSend m"
    by (simp add: sendEvent_def example_config_def)
  from sendFcm_all_succeed [OF p ok] show ?thesis
    by (simp add: se provider_calls_def deletes_def)
qed

text \<open>
  C2.  In a delivery of \<open>N\<close> prepared messages, when the send of message \<open>i\<close> is
  answered with an invalid-token error (the owner list reaching index \<open>i\<close>, as it does
  when it is aligned with the messages) and every other send succeeds, all \<open>N\<close> sends
  are made, in the order of the list, and exactly one delete is issued, for the owner
  and the token of message \<open>i\<close>.
\<close>

theorem sendFcm_invalid_token_continues:
  assumes prep: "PrepareNotifications env rcpt config = (messages, uids)"
    and i: "i < length messages"
    and iu: "i < length uids"
    and err: "clientSend env config i (messages ! i) = Some e"
    and cls: "classify e = InvalidToken"
    and others: "\<forall>j<length messages. j \<noteq> i \<longrightarrow> clientSend env config j (messages ! j) = None"
  shows "provider_calls (sendFcm env rcpt config) = map (sendEvent config) messages \<and>
         length (provider_calls (sendFcm env rcpt config)) = length messages \<and>
         deletes (sendFcm env rcpt config) = [CallDevicesDelete (uids ! i) (Token (messages ! i))]"
proof -
  let ?pre = "take i messages" and ?m = "messages ! i" and ?post = "drop (Suc i) messages"
  let ?r = "onSendResult env uids i ?m (Some e)"
  have split: "messages = ?pre @ ?m # ?post"
    using i by (simp add: id_take_nth_drop)
  have len: "length ?pre = i" using i by simp
  have pre_ok: "\<forall>j<length ?pre. clientSend env config (0 + j) (?pre ! j) = None"
    using others i by simp
  have pre: "sendFcm_loop env config uids 0 ?pre = map (sendEvent config) ?pre"
    by (rule sendFcm_loop_all_ok [OF pre_ok])
  have pre_next: "\<forall>j<length ?pre. snd (onSendResult env uids (0 + j) (?pre ! j) (clientSend env config (0 + j) (?pre ! j))) = Next"
    using pre_ok by (simp add: onSendResult_ok)
  have post_ok: "\<forall>j<length ?post. clientSend env config (Suc i + j) (?post ! j) = None"
    using others i by simp
  have post: "sendFcm_loop env config uids (Suc i) ?post = map (sendEvent config) ?post"
    by (rule sendFcm_loop_all_ok [OF post_ok])
  from onSendResult_invalid_token [OF cls iu, of env ?m]
  have nxt: "snd ?r = Next" and del: "deletes (fst ?r) = [CallDevicesDelete (uids ! i) (Token ?m)]"
    by simp_all
  have calls: "provider_calls (fst ?r) = []" by (rule onSendResult_no_calls)
  have mid: "sendFcm_loop env config uids i (?m # ?post) =
               sendEvent config ?m # fst ?r @ map (sendEvent config) ?post"
    using nxt err post by (cases ?r) simp
  have "sendFcm_loop env config uids 0 (?pre @ ?m # ?post) =
          sendFcm_loop env config uids 0 ?pre @ sendFcm_loop env config uids (0 + length ?pre) (?m # ?post)"
    by (rule sendFcm_loop_append [OF pre_next])
  with split pre mid len
  have tr: "sendFcm_loop env config uids 0 messages =
              map (sendEvent config) ?pre @ sendEvent config ?m # fst ?r @ map (sendEvent config) ?post"
    by simp
  have "provider_calls (sendFcm_loop env config uids 0 messages) =
          map (sendEvent config) ?pre @ sendEvent config ?m # map (sendEvent config) ?post"
    using calls by (simp add: tr provider_calls_def sendEvent_is_call) (simp add: sendEvent_def)
  also have "\<dots> = map (sendEvent config) (?pre @ ?m # ?post)" by simp
  also have "\<dots> = map (sendEvent config) messages" using split by simp
  finally have c: "provider_calls (sendFcm_loop env config uids 0 messages) = map (sendEvent config) messages" .
  have d: "deletes (sendFcm_loop env config uids 0 messages) = [CallDevicesDelete (uids ! i) (Token ?m)]"
    using del by (simp add: tr deletes_def sendEvent_not_delete) (simp add: sendEvent_def)
  from prep c d show ?thesis by (simp add: sendFcm_def)
qed

theorem sendFcm_invalid_token_continues_witness:
  "provider_calls (sendFcm (example_env (\<lambda>i. if i = 1 then Some (example_error False True) else None)
       (\<lambda>k. Inl (example_error True False)) [] []) () example_config)
     = [CallSend (msg ''t1''), CallSend (msg ''t2''), CallSend (msg ''t3'')] \<and>
   length (provider_calls (sendFcm (example_env (\<lambda>i. if i = 1 then Some (example_error False True) else None)
       (\<lambda>k. Inl (example_error True False)) [] []) () example_config)) = 3 \<and>
   deletes (sendFcm (example_env (\<lambda>i. if i = 1 then Some (example_error False True) else None)
       (\<lambda>k. Inl (example_error True False)) [] []) () example_config)
     = [CallDevicesDelete 2 ''t2'']"
proof -
  let ?env = "example_env (\<lambda>i. if i = 1 then Some (example_error False True) else None)
       (\<lambda>k. Inl (example_error True False)) [] []"
  let ?ms = "[msg ''t1'', msg ''t2'', msg ''t3'']"
  have p: "PrepareNotifications ?env () example_config = (?ms, [1, 2, 3])"
    by (simp add: example_env_def)
  have i: "(1::nat) < length ?ms" and iu: "(1::nat) < length [1, 2, 3 :: Uid]" by simp_all
  have err: "clientSend ?env example_config 1 (?ms ! 1) = Some (example_error False True)"
    by (simp add: clientSend_def example_env_def)
  have cls: "classify (example_error False True) = InvalidToken"
    by (simp add: classify_def example_error_def)
  have others: "\<forall>j<length ?ms. j \<noteq> 1 \<longrightarrow> clientSend ?env example_config j (?ms ! j) = None"
    by (simp add: clientSend_def example_env_def)
  have se: "\<And>m. sendEvent example_config m = CallSend m"
    by (simp add: sendEvent_def example_config_def)
  from sendFcm_invalid_token_continues [OF p i iu err cls others] show ?thesis
    by (simp add: se msg_def)
qed

text \<open>
  C3.  When the send of message \<open>i\<close> is answered with a transient error, a
  configuration error or an unknown one, the run is the run on the first \<open>i + 1\<close>
  messages: the sends made are the first ones of the list, \<open>i + 1\<close> at most, no later
  message is attempted, and the deletes are those issued for the messages before \<open>i\<close>,
  none for this error.  When the sends before \<open>i\<close> succeeded, the trace is the \<open>i + 1\<close>
  sends and one warning.
\<close>

theorem sendFcm_abort_stops:
  assumes prep: "PrepareNotifications env rcpt config = (messages, uids)"
    and i: "i < length messages"
    and err: "clientSend env config i (messages ! i) = Some e"
    and cls: "classify e = Transient \<or> classify e = ConfigError \<or> classify e = Unknown"
  shows "sendFcm env rcpt config = sendFcm_loop env config uids 0 (take (Suc i) messages) \<and>
         prefix (provider_calls (sendFcm env rcpt config)) (map (sendEvent config) (take (Suc i) messages)) \<and>
         length (provider_calls (sendFcm env rcpt config)) \<le> Suc i \<and>
         deletes (sendFcm env rcpt config) = deletes (sendFcm_loop env config uids 0 (take i messages)) \<and>
         ((\<forall>j<i. clientSend env config j (messages ! j) = None) \<longrightarrow>
            (\<exists>t. sendFcm env rcpt config =
                   map (sendEvent config) (take (Suc i) messages) @ [Log Warn [Str t, Str (ErrorText e)]]))"
proof -
  let ?pre = "take i messages" and ?m = "messages ! i" and ?post = "drop (Suc i) messages"
  have split: "messages = ?pre @ ?m # ?post"
    using i by (simp add: id_take_nth_drop)
  have tk: "take (Suc i) messages = ?pre @ [?m]"
    using i by (simp add: take_Suc_conv_app_nth)
  have len: "length ?pre = i" using i by simp
  from cls have "classify e \<noteq> InvalidToken" by auto
  from onSendResult_abort [OF this, of env uids i ?m]
  obtain t where r: "onSendResult env uids i ?m (Some e) = ([Log Warn [Str t, Str (ErrorText e)]], Return)"
    by blast
  have r': "onSendResult env uids (0 + length ?pre) ?m (clientSend env config (0 + length ?pre) ?m)
             = ([Log Warn [Str t, Str (ErrorText e)]], Return)"
    using r err len by simp
  have "sendFcm_loop env config uids 0 (?pre @ ?m # ?post) = sendFcm_loop env config uids 0 (?pre @ [?m])"
    by (rule sendFcm_loop_cut) (use r' in simp)
  with split tk have cut: "sendFcm_loop env config uids 0 messages = sendFcm_loop env config uids 0 (take (Suc i) messages)"
    by simp
  have tr: "sendFcm env rcpt config = sendFcm_loop env config uids 0 (take (Suc i) messages)"
    using prep cut by (simp add: sendFcm_def)
  have pf: "prefix (provider_calls (sendFcm env rcpt config)) (map (sendEvent config) (take (Suc i) messages))"
    unfolding tr by (rule sendFcm_loop_calls_prefix)
  from prefix_length_le [OF pf] i have ln: "length (provider_calls (sendFcm env rcpt config)) \<le> Suc i"
    by simp
  have "deletes (sendFcm_loop env config uids 0 (?pre @ [?m])) = deletes (sendFcm_loop env config uids 0 ?pre)"
    by (rule sendFcm_loop_deletes_cut) (use r' in \<open>simp_all add: deletes_def\<close>)
  then have dl: "deletes (sendFcm env rcpt config) = deletes (sendFcm_loop env config uids 0 ?pre)"
    by (simp add: tr tk)
  have ex: "\<exists>t. sendFcm env rcpt config =
                map (sendEvent config) (take (Suc i) messages) @ [Log Warn [Str t, Str (ErrorText e)]]"
    if ok: "\<forall>j<i. clientSend env config j (messages ! j) = None"
  proof -
    have pre_ok: "\<forall>j<length ?pre. clientSend env config (0 + j) (?pre ! j) = None"
      using ok i by simp
    have pre: "sendFcm_loop env config uids 0 ?pre = map (sendEvent config) ?pre"
      by (rule sendFcm_loop_all_ok [OF pre_ok])
    have pre_next: "\<forall>j<length ?pre. snd (onSendResult env uids (0 + j) (?pre ! j) (clientSend env config (0 + j) (?pre ! j))) = Next"
      using pre_ok by (simp add: onSendResult_ok)
    have "sendFcm_loop env config uids 0 (?pre @ [?m]) =
            sendFcm_loop env config uids 0 ?pre @ sendFcm_loop env config uids (0 + length ?pre) [?m]"
      by (rule sendFcm_loop_append [OF pre_next])
    then have "sendFcm env rcpt config =
                 map (sendEvent config) (take (Suc i) messages) @ [Log Warn [Str t, Str (ErrorText e)]]"
      using r' pre by (simp add: tr tk)
    then show ?thesis by blast
  qed
  from tr pf ln dl ex show ?thesis by blast
qed

theorem sendFcm_abort_stops_witness:
  "sendFcm (example_env (\<lambda>i. if i = 1 then Some (example_error True False) else None)
       (\<lambda>k. Inl (example_error True False)) [] []) () example_config
     = [CallSend (msg ''t1''), CallSend (msg ''t2''), Log Warn [Str ''fcm transient failure:'', Str ''e'']] \<and>
   length (provider_calls (sendFcm (example_env (\<lambda>i. if i = 1 then Some (example_error True False) else None)
       (\<lambda>k. Inl (example_error True False)) [] []) () example_config)) \<le> 2 \<and>
   deletes (sendFcm (example_env (\<lambda>i. if i = 1 then Some (example_error True False) else None)
       (\<lambda>k. Inl (example_error True False)) [] []) () example_config) = [] \<and>
   (\<exists>t. sendFcm (example_env (\<lambda>i. if i = 1 then Some (example_error True False) else None)
       (\<lambda>k. Inl (example_error True False)) [] []) () example_config
     = [CallSend (msg ''t1''), CallSend (msg ''t2'')] @ [Log Warn [Str t, Str ''e'']])"
proof -
  let ?env = "example_env (\<lambda>i. if i = 1 then Some (example_error True False) else None)
       (\<lambda>k. Inl (example_error True False)) [] []"
  let ?ms = "[msg ''t1'', msg ''t2'', msg ''t3'']"
  have p: "PrepareNotifications ?env () example_config = (?ms, [1, 2, 3])"
    by (simp add: example_env_def)
  have i: "(1::nat) < length ?ms" by simp
  have err: "clientSend ?env example_config 1 (?ms ! 1) = Some (example_error True False)"
    by (simp add: clientSend_def example_env_def)
  have cls: "classify (example_error True False) = Transient \<or>
             classify (example_error True False) = ConfigError \<or>
             classify (example_error True False) = Unknown"
    by (simp add: classify_def example_error_def)
  have earlier: "\<forall>j<1. clientSend ?env example_config j (?ms ! j) = None"
    by (simp add: clientSend_def example_env_def)
  have se: "\<And>m. sendEvent example_config m = CallSend m"
    by (simp add: sendEvent_def example_config_def)
  have dr: "DryRun example_config = False"
    by (simp add: example_config_def)
  have run: "sendFcm_loop ?env example_config [1, 2, 3] 0 (take (Suc 1) ?ms)
               = [CallSend (msg ''t1''), CallSend (msg ''t2''), Log Warn [Str ''fcm transient failure:'', Str ''e'']]"
    by (simp add: se dr clientSend_def onSendResult_def example_env_def example_error_def)
  have run0: "sendFcm_loop ?env example_config [1, 2, 3] 0 (take 1 ?ms) = [CallSend (msg ''t1'')]"
    by (simp add: se dr clientSend_def onSendResult_def example_env_def example_error_def)
  from sendFcm_abort_stops [OF p i err cls]
  have a: "sendFcm ?env () example_config = sendFcm_loop ?env example_config [1, 2, 3] 0 (take (Suc 1) ?ms)"
    and b: "length (provider_calls (sendFcm ?env () example_config)) \<le> Suc 1"
    and c: "deletes (sendFcm ?env () example_config) = deletes (sendFcm_loop ?env example_config [1, 2, 3] 0 (take 1 ?ms))"
    by blast+
  from a have a': "sendFcm ?env () example_config
      = [CallSend (msg ''t1''), CallSend (msg ''t2''), Log Warn [Str ''fcm transient failure:'', Str ''e'']]"
    by (simp only: run)
  from c have c': "deletes (sendFcm ?env () example_config) = []"
    by (simp only: run0) (simp add: deletes_def)
  from sendFcm_abort_stops [OF p i err cls] earlier
  have "\<exists>t. sendFcm ?env () example_config =
          map (sendEvent example_config) (take (Suc 1) ?ms) @ [Log Warn [Str t, Str (ErrorText (example_error True False))]]"
    by blast
  then have d: "\<exists>t. sendFcm ?env () example_config
      = [CallSend (msg ''t1''), CallSend (msg ''t2'')] @ [Log Warn [Str t, Str ''e'']]"
    by (simp add: se example_error_def)
  from a' b c' d show ?thesis by simp
qed

text \<open>
  C8.  With the flag \<open>DryRun\<close> set no real send occurs and the calls to the client are
  validating sends of the first messages of the list; with the flag unset no validating
  send occurs and the calls are real sends.  What follows an answer does not depend on
  the flag: when the two variants answer alike and the same messages are prepared, the
  trace of the dry run is the trace of the real run with each send read as a
  validating one.

  The variant called is the one whose answer drives the run.  With the flag set the
  trace is the same whatever \<open>Send\<close> would answer, and with the flag unset whatever
  \<open>SendDryRun\<close> would answer.  Every message is reached through the variant of the flag:
  when its first \<open>n\<close> answers are successes, the calls of the trace begin with the sends
  of the first \<open>n + 1\<close> messages (all of them when \<open>n\<close> is their number).  And a dry run
  whose validating send answers \<open>g\<close> has the trace of a real run whose send answers \<open>g\<close>,
  each send read as a validating one.
\<close>

theorem sendFcm_dry_run:
  "(DryRun config \<longrightarrow>
      (\<forall>m. CallSend m \<notin> set (sendFcm env rcpt config)) \<and>
      prefix (provider_calls (sendFcm env rcpt config))
             (map CallSendDryRun (fst (PrepareNotifications env rcpt config)))) \<and>
   (\<not> DryRun config \<longrightarrow>
      (\<forall>m. CallSendDryRun m \<notin> set (sendFcm env rcpt config)) \<and>
      prefix (provider_calls (sendFcm env rcpt config))
             (map CallSend (fst (PrepareNotifications env rcpt config)))) \<and>
   ((\<forall>i m. SendDryRun env i m = Send env i m) \<and>
    PrepareNotifications env rcpt (config\<lparr>DryRun := True\<rparr>) =
      PrepareNotifications env rcpt (config\<lparr>DryRun := False\<rparr>) \<longrightarrow>
      sendFcm env rcpt (config\<lparr>DryRun := True\<rparr>) =
        map asDryRun (sendFcm env rcpt (config\<lparr>DryRun := False\<rparr>))) \<and>
   (DryRun config \<longrightarrow> sendFcm (env\<lparr>Send := f\<rparr>) rcpt config = sendFcm env rcpt config) \<and>
   (\<not> DryRun config \<longrightarrow> sendFcm (env\<lparr>SendDryRun := f\<rparr>) rcpt config = sendFcm env rcpt config) \<and>
   (DryRun config \<and> n \<le> length (fst (PrepareNotifications env rcpt config)) \<and>
    (\<forall>j<n. SendDryRun env j (fst (PrepareNotifications env rcpt config) ! j) = None) \<longrightarrow>
      prefix (map CallSendDryRun (take (Suc n) (fst (PrepareNotifications env rcpt config))))
             (provider_calls (sendFcm env rcpt config))) \<and>
   (\<not> DryRun config \<and> n \<le> length (fst (PrepareNotifications env rcpt config)) \<and>
    (\<forall>j<n. Send env j (fst (PrepareNotifications env rcpt config) ! j) = None) \<longrightarrow>
      prefix (map CallSend (take (Suc n) (fst (PrepareNotifications env rcpt config))))
             (provider_calls (sendFcm env rcpt config))) \<and>
   (PrepareNotifications env rcpt (config\<lparr>DryRun := True\<rparr>) =
      PrepareNotifications env rcpt (config\<lparr>DryRun := False\<rparr>) \<longrightarrow>
      sendFcm (env\<lparr>SendDryRun := g\<rparr>) rcpt (config\<lparr>DryRun := True\<rparr>) =
        map asDryRun (sendFcm (env\<lparr>Send := g\<rparr>) rcpt (config\<lparr>DryRun := False\<rparr>)))"
proof -
  note labels = sendFcm_flag_labels [of config env rcpt]
  have same: "sendFcm env rcpt (config\<lparr>DryRun := True\<rparr>) =
        map asDryRun (sendFcm env rcpt (config\<lparr>DryRun := False\<rparr>))"
    if h: "(\<forall>i m. SendDryRun env i m = Send env i m) \<and>
      PrepareNotifications env rcpt (config\<lparr>DryRun := True\<rparr>) =
      PrepareNotifications env rcpt (config\<lparr>DryRun := False\<rparr>)"
  proof -
    obtain ms us where p2: "PrepareNotifications env rcpt (config\<lparr>DryRun := False\<rparr>) = (ms, us)"
      by (cases "PrepareNotifications env rcpt (config\<lparr>DryRun := False\<rparr>)")
    from h have s: "\<forall>i m. SendDryRun env i m = Send env i m" by blast
    have "sendFcm_loop env (config\<lparr>DryRun := True\<rparr>) us 0 ms =
            map asDryRun (sendFcm_loop env (config\<lparr>DryRun := False\<rparr>) us 0 ms)"
      by (rule sendFcm_loop_asDryRun [OF s]) simp_all
    with h p2 show ?thesis by (simp add: sendFcm_def)
  qed
  have ig1: "sendFcm (env\<lparr>Send := f\<rparr>) rcpt config = sendFcm env rcpt config" if "DryRun config"
    using that by (simp add: sendFcm_def sendFcm_loop_ignores_Send split: prod.split)
  have ig2: "sendFcm (env\<lparr>SendDryRun := f\<rparr>) rcpt config = sendFcm env rcpt config" if "\<not> DryRun config"
    using that by (simp add: sendFcm_def sendFcm_loop_ignores_SendDryRun split: prod.split)
  have r1: "prefix (map CallSendDryRun (take (Suc n) (fst (PrepareNotifications env rcpt config))))
             (provider_calls (sendFcm env rcpt config))"
    if h: "DryRun config \<and> n \<le> length (fst (PrepareNotifications env rcpt config)) \<and>
      (\<forall>j<n. SendDryRun env j (fst (PrepareNotifications env rcpt config) ! j) = None)"
  proof -
    from h have se: "sendEvent config = CallSendDryRun" by (simp add: sendEvent_def fun_eq_iff)
    from h have "\<forall>j<n. clientSend env config j (fst (PrepareNotifications env rcpt config) ! j) = None"
      by (simp add: clientSend_def)
    with h sendFcm_flag_reach [of n env rcpt config] show ?thesis by (simp add: se)
  qed
  have r2: "prefix (map CallSend (take (Suc n) (fst (PrepareNotifications env rcpt config))))
             (provider_calls (sendFcm env rcpt config))"
    if h: "\<not> DryRun config \<and> n \<le> length (fst (PrepareNotifications env rcpt config)) \<and>
      (\<forall>j<n. Send env j (fst (PrepareNotifications env rcpt config) ! j) = None)"
  proof -
    from h have se: "sendEvent config = CallSend" by (simp add: sendEvent_def fun_eq_iff)
    from h have "\<forall>j<n. clientSend env config j (fst (PrepareNotifications env rcpt config) ! j) = None"
      by (simp add: clientSend_def)
    with h sendFcm_flag_reach [of n env rcpt config] show ?thesis by (simp add: se)
  qed
  have var: "sendFcm (env\<lparr>SendDryRun := g\<rparr>) rcpt (config\<lparr>DryRun := True\<rparr>) =
        map asDryRun (sendFcm (env\<lparr>Send := g\<rparr>) rcpt (config\<lparr>DryRun := False\<rparr>))"
    if h: "PrepareNotifications env rcpt (config\<lparr>DryRun := True\<rparr>) =
      PrepareNotifications env rcpt (config\<lparr>DryRun := False\<rparr>)"
  proof -
    obtain ms us where p2: "PrepareNotifications env rcpt (config\<lparr>DryRun := False\<rparr>) = (ms, us)"
      by (cases "PrepareNotifications env rcpt (config\<lparr>DryRun := False\<rparr>)")
    have "sendFcm_loop (env\<lparr>SendDryRun := g\<rparr>) (config\<lparr>DryRun := True\<rparr>) us 0 ms =
            map asDryRun (sendFcm_loop (env\<lparr>Send := g\<rparr>) (config\<lparr>DryRun := False\<rparr>) us 0 ms)"
      by (rule sendFcm_loop_variants) simp_all
    with h p2 show ?thesis by (simp add: sendFcm_def)
  qed
  from labels same ig1 ig2 r1 r2 var show ?thesis by blast
qed

theorem sendFcm_dry_run_witness:
  "sendFcm (example_env (\<lambda>i. if i = 1 then Some (example_error False True) else None)
       (\<lambda>k. Inl (example_error True False)) [] []) () (example_config\<lparr>DryRun := True\<rparr>)
     = map asDryRun (sendFcm (example_env (\<lambda>i. if i = 1 then Some (example_error False True) else None)
       (\<lambda>k. Inl (example_error True False)) [] []) () (example_config\<lparr>DryRun := False\<rparr>)) \<and>
   sendFcm (example_env (\<lambda>i. if i = 1 then Some (example_error False True) else None)
       (\<lambda>k. Inl (example_error True False)) [] []) () (example_config\<lparr>DryRun := True\<rparr>)
     = [CallSendDryRun (msg ''t1''), CallSendDryRun (msg ''t2''),
        Log Warn [Str ''fcm invalid token:'', Str ''e''], CallDevicesDelete 2 ''t2'',
        CallSendDryRun (msg ''t3'')] \<and>
   (\<forall>m. CallSend m \<notin> set (sendFcm (example_env (\<lambda>i. if i = 1 then Some (example_error False True) else None)
       (\<lambda>k. Inl (example_error True False)) [] []) () (example_config\<lparr>DryRun := True\<rparr>))) \<and>
   (\<forall>m. CallSendDryRun m \<notin> set (sendFcm (example_env (\<lambda>i. if i = 1 then Some (example_error False True) else None)
       (\<lambda>k. Inl (example_error True False)) [] []) () example_config)) \<and>
   sendFcm ((example_env (\<lambda>i. if i = 1 then Some (example_error False True) else None)
       (\<lambda>k. Inl (example_error True False)) [] [])\<lparr>Send := \<lambda>i m. Some (example_error True False)\<rparr>)
       () (example_config\<lparr>DryRun := True\<rparr>)
     = [CallSendDryRun (msg ''t1''), CallSendDryRun (msg ''t2''),
        Log Warn [Str ''fcm invalid token:'', Str ''e''], CallDevicesDelete 2 ''t2'',
        CallSendDryRun (msg ''t3'')] \<and>
   sendFcm ((example_env (\<lambda>i. if i = 1 then Some (example_error False True) else None)
       (\<lambda>k. Inl (example_error True False)) [] [])\<lparr>SendDryRun := \<lambda>i m. Some (example_error True False)\<rparr>)
       () example_config
     = [CallSend (msg ''t1''), CallSend (msg ''t2''),
        Log Warn [Str ''fcm invalid token:'', Str ''e''], CallDevicesDelete 2 ''t2'',
        CallSend (msg ''t3'')] \<and>
   prefix [CallSendDryRun (msg ''t1''), CallSendDryRun (msg ''t2'')]
     (provider_calls (sendFcm (example_env (\<lambda>i. if i = 1 then Some (example_error False True) else None)
       (\<lambda>k. Inl (example_error True False)) [] []) () (example_config\<lparr>DryRun := True\<rparr>))) \<and>
   prefix [CallSend (msg ''t1''), CallSend (msg ''t2'')]
     (provider_calls (sendFcm (example_env (\<lambda>i. if i = 1 then Some (example_error False True) else None)
       (\<lambda>k. Inl (example_error True False)) [] []) () example_config)) \<and>
   sendFcm ((example_env (\<lambda>i. if i = 1 then Some (example_error False True) else None)
       (\<lambda>k. Inl (example_error True False)) [] [])\<lparr>SendDryRun := \<lambda>i m. None\<rparr>)
       () (example_config\<lparr>DryRun := True\<rparr>)
     = map asDryRun (sendFcm ((example_env (\<lambda>i. if i = 1 then Some (example_error False True) else None)
       (\<lambda>k. Inl (example_error True False)) [] [])\<lparr>Send := \<lambda>i m. None\<rparr>)
       () (example_config\<lparr>DryRun := False\<rparr>))"
proof -
  let ?env = "example_env (\<lambda>i. if i = 1 then Some (example_error False True) else None)
       (\<lambda>k. Inl (example_error True False)) [] []"
  let ?dry = "example_config\<lparr>DryRun := True\<rparr>"
  let ?fail = "\<lambda>(i::nat) (m::Message). Some (example_error True False)"
  let ?ms = "[msg ''t1'', msg ''t2'', msg ''t3'']"
  have prep: "\<And>c. PrepareNotifications ?env () c = (?ms, [1, 2, 3])"
    by (simp add: example_env_def)
  have same: "(\<forall>i m. SendDryRun ?env i m = Send ?env i m) \<and>
      PrepareNotifications ?env () (example_config\<lparr>DryRun := True\<rparr>) =
      PrepareNotifications ?env () (example_config\<lparr>DryRun := False\<rparr>)"
    by (simp add: example_env_def)
  have dry: "DryRun ?dry" by simp
  have real: "\<not> DryRun example_config" by (simp add: example_config_def)
  note t_real = sendFcm_dry_run [of example_config ?env "()" ?fail 1 "\<lambda>i m. None"]
  note t_dry = sendFcm_dry_run [of ?dry ?env "()" ?fail 1 "\<lambda>i m. None"]
  from t_real same
  have a: "sendFcm ?env () (example_config\<lparr>DryRun := True\<rparr>)
            = map asDryRun (sendFcm ?env () (example_config\<lparr>DryRun := False\<rparr>))"
    by blast
  from t_real real
  have b: "\<forall>m. CallSendDryRun m \<notin> set (sendFcm ?env () example_config)"
    by blast
  from t_dry dry
  have c: "\<forall>m. CallSend m \<notin> set (sendFcm ?env () ?dry)"
    by blast
  have d: "sendFcm ?env () ?dry
     = [CallSendDryRun (msg ''t1''), CallSendDryRun (msg ''t2''),
        Log Warn [Str ''fcm invalid token:'', Str ''e''], CallDevicesDelete 2 ''t2'',
        CallSendDryRun (msg ''t3'')]"
    by (simp add: sendFcm_def sendEvent_def clientSend_def onSendResult_def example_env_def
          example_error_def msg_def)
  have d': "sendFcm ?env () example_config
     = [CallSend (msg ''t1''), CallSend (msg ''t2''),
        Log Warn [Str ''fcm invalid token:'', Str ''e''], CallDevicesDelete 2 ''t2'',
        CallSend (msg ''t3'')]"
    by (simp add: sendFcm_def sendEvent_def clientSend_def onSendResult_def example_env_def
          example_error_def msg_def example_config_def)
  from t_dry dry have "sendFcm (?env\<lparr>Send := ?fail\<rparr>) () ?dry = sendFcm ?env () ?dry"
    by blast
  then have e: "sendFcm (?env\<lparr>Send := ?fail\<rparr>) () ?dry
     = [CallSendDryRun (msg ''t1''), CallSendDryRun (msg ''t2''),
        Log Warn [Str ''fcm invalid token:'', Str ''e''], CallDevicesDelete 2 ''t2'',
        CallSendDryRun (msg ''t3'')]"
    by (simp only: d)
  from t_real real have "sendFcm (?env\<lparr>SendDryRun := ?fail\<rparr>) () example_config = sendFcm ?env () example_config"
    by blast
  then have f: "sendFcm (?env\<lparr>SendDryRun := ?fail\<rparr>) () example_config
     = [CallSend (msg ''t1''), CallSend (msg ''t2''),
        Log Warn [Str ''fcm invalid token:'', Str ''e''], CallDevicesDelete 2 ''t2'',
        CallSend (msg ''t3'')]"
    by (simp only: d')
  have n: "\<And>c. (1::nat) \<le> length (fst (PrepareNotifications ?env () c))"
    by (simp add: example_env_def)
  have okd: "\<And>c. \<forall>j<1. SendDryRun ?env j (fst (PrepareNotifications ?env () c) ! j) = None"
    by (simp add: example_env_def)
  have okr: "\<And>c. \<forall>j<1. Send ?env j (fst (PrepareNotifications ?env () c) ! j) = None"
    by (simp add: example_env_def)
  note c6 = t_dry [THEN conjunct2, THEN conjunct2, THEN conjunct2, THEN conjunct2, THEN conjunct2,
      THEN conjunct1, THEN mp]
  note c7 = t_real [THEN conjunct2, THEN conjunct2, THEN conjunct2, THEN conjunct2, THEN conjunct2,
      THEN conjunct2, THEN conjunct1, THEN mp]
  note c8 = t_real [THEN conjunct2, THEN conjunct2, THEN conjunct2, THEN conjunct2, THEN conjunct2,
      THEN conjunct2, THEN conjunct2, THEN mp]
  have "prefix (map CallSendDryRun (take (Suc 1) (fst (PrepareNotifications ?env () ?dry))))
          (provider_calls (sendFcm ?env () ?dry))"
    by (rule c6) (intro conjI dry n okd)
  then have g: "prefix [CallSendDryRun (msg ''t1''), CallSendDryRun (msg ''t2'')]
          (provider_calls (sendFcm ?env () ?dry))"
    by (simp add: example_env_def)
  have "prefix (map CallSend (take (Suc 1) (fst (PrepareNotifications ?env () example_config))))
          (provider_calls (sendFcm ?env () example_config))"
    by (rule c7) (intro conjI real n okr)
  then have h: "prefix [CallSend (msg ''t1''), CallSend (msg ''t2'')]
          (provider_calls (sendFcm ?env () example_config))"
    by (simp add: example_env_def)
  have i: "sendFcm (?env\<lparr>SendDryRun := \<lambda>i m. None\<rparr>) () (example_config\<lparr>DryRun := True\<rparr>)
     = map asDryRun (sendFcm (?env\<lparr>Send := \<lambda>i m. None\<rparr>) () (example_config\<lparr>DryRun := False\<rparr>))"
    by (rule c8) (rule same [THEN conjunct2])
  show ?thesis
    by (intro conjI) (rule a d c b e f g h i)+
qed

section \<open>Properties of handleSubErrors\<close>

lemma handleSubErrors_loop_panic:
  "(Panic \<in> set (handleSubErrors_loop uid devices es)) =
   (\<exists>e\<in>set es. Index e < 0 \<or> int (length devices) \<le> Index e)"
  by (induction es) auto

lemma handleSubErrors_loop_logs:
  "\<forall>e\<in>set es. 0 \<le> Index e \<and> Index e < int (length devices) \<Longrightarrow>
   handleSubErrors_loop uid devices es =
     map (\<lambda>e. Log Warn [Str ''fcm sub/unsub error'', Str (Reason e), UidV uid,
                        Str (devices ! nat (Index e))]) es"
  by (induction es) simp_all

lemma handleSubErrors_loop_no_calls:
  "filter is_provider_call (handleSubErrors_loop uid devices es) = []"
  by (induction es) simp_all

lemma handleSubErrors_no_calls:
  "provider_calls (handleSubErrors response uid devices) = []"
  by (simp add: provider_calls_def handleSubErrors_def handleSubErrors_loop_no_calls)

lemma handleSubErrors_loop_no_Err:
  "filter (is_log Err) (handleSubErrors_loop uid devices es) = []"
  by (induction es) simp_all

lemma handleSubErrors_no_Err:
  "filter (is_log Err) (handleSubErrors response uid devices) = []"
  by (simp add: handleSubErrors_def handleSubErrors_loop_no_Err)

lemma handleSubErrors_panic:
  "(Panic \<in> set (handleSubErrors response uid devices)) = (\<not> well_indexed response devices)"
  by (auto simp: handleSubErrors_def well_indexed_def handleSubErrors_loop_panic not_le not_less)

text \<open>
  C9.  Once the failure count is positive, \<open>handleSubErrors\<close> reads
  \<open>devices[errinfo.Index]\<close> for each reported error, with no check of the index.  It
  then panics exactly when some reported index is not a position of the device list
  passed to the call: so a run without panic has every reported index below the
  length of the list, and, for the one-element list of a request with a fixed device,
  equal to 0.  Conversely, indexes that are positions of the list (from 0, below its
  length) exclude the panic, and the inspection logs one warning for each, with the
  token at that index.
\<close>

theorem handleSubErrors_in_range:
  "(0 < FailureCount response \<longrightarrow>
      (Panic \<in> set (handleSubErrors response uid devices)) =
      (\<exists>e\<in>set (Errors response). Index e < 0 \<or> int (length devices) \<le> Index e)) \<and>
   (0 < FailureCount response \<and> Panic \<notin> set (handleSubErrors response uid devices) \<longrightarrow>
      (\<forall>e\<in>set (Errors response). Index e < int (length devices))) \<and>
   (0 < FailureCount response \<and> Panic \<notin> set (handleSubErrors response uid [d]) \<longrightarrow>
      (\<forall>e\<in>set (Errors response). Index e = 0)) \<and>
   ((\<forall>e\<in>set (Errors response). 0 \<le> Index e \<and> Index e < int (length devices)) \<longrightarrow>
      Panic \<notin> set (handleSubErrors response uid devices)) \<and>
   (0 < FailureCount response \<and>
    (\<forall>e\<in>set (Errors response). 0 \<le> Index e \<and> Index e < int (length devices)) \<longrightarrow>
      handleSubErrors response uid devices =
        map (\<lambda>e. Log Warn [Str ''fcm sub/unsub error'', Str (Reason e), UidV uid,
                           Str (devices ! nat (Index e))]) (Errors response))"
proof (intro conjI impI)
  assume "0 < FailureCount response"
  then show "(Panic \<in> set (handleSubErrors response uid devices)) =
      (\<exists>e\<in>set (Errors response). Index e < 0 \<or> int (length devices) \<le> Index e)"
    by (simp add: handleSubErrors_def handleSubErrors_loop_panic)
next
  assume "0 < FailureCount response \<and> Panic \<notin> set (handleSubErrors response uid devices)"
  then show "\<forall>e\<in>set (Errors response). Index e < int (length devices)"
    by (auto simp: handleSubErrors_def handleSubErrors_loop_panic not_le)
next
  assume "0 < FailureCount response \<and> Panic \<notin> set (handleSubErrors response uid [d])"
  then show "\<forall>e\<in>set (Errors response). Index e = 0"
    by (fastforce simp: handleSubErrors_def handleSubErrors_loop_panic)
next
  assume "\<forall>e\<in>set (Errors response). 0 \<le> Index e \<and> Index e < int (length devices)"
  then show "Panic \<notin> set (handleSubErrors response uid devices)"
    by (auto simp: handleSubErrors_def handleSubErrors_loop_panic)
next
  assume "0 < FailureCount response \<and>
    (\<forall>e\<in>set (Errors response). 0 \<le> Index e \<and> Index e < int (length devices))"
  then show "handleSubErrors response uid devices =
        map (\<lambda>e. Log Warn [Str ''fcm sub/unsub error'', Str (Reason e), UidV uid,
                           Str (devices ! nat (Index e))]) (Errors response)"
    by (simp add: handleSubErrors_def handleSubErrors_loop_logs)
qed

theorem handleSubErrors_in_range_witness:
  "handleSubErrors (example_response [0]) 7 [''d1'']
     = [Log Warn [Str ''fcm sub/unsub error'', Str ''r'', UidV 7, Str ''d1'']] \<and>
   Panic \<notin> set (handleSubErrors (example_response [0]) 7 [''d1'']) \<and>
   Panic \<in> set (handleSubErrors (example_response [0, 1]) 7 [''d1'']) \<and>
   Panic \<in> set (handleSubErrors (example_response [-1]) 7 [''d1''])"
proof -
  have f: "0 < FailureCount (example_response [0])" "0 < FailureCount (example_response [0, 1])"
    "0 < FailureCount (example_response [-1])"
    by (simp_all add: example_response_def)
  have r: "\<forall>e\<in>set (Errors (example_response [0])). 0 \<le> Index e \<and> Index e < int (length [''d1''])"
    by (simp add: example_response_def)
  from handleSubErrors_in_range [of "example_response [0]" 7 "[''d1'']"] f(1) r
  have a: "handleSubErrors (example_response [0]) 7 [''d1'']
     = map (\<lambda>e. Log Warn [Str ''fcm sub/unsub error'', Str (Reason e), UidV 7,
                           Str ([''d1''] ! nat (Index e))]) (Errors (example_response [0]))"
    and b: "Panic \<notin> set (handleSubErrors (example_response [0]) 7 [''d1''])"
    by blast+
  from a have a': "handleSubErrors (example_response [0]) 7 [''d1'']
     = [Log Warn [Str ''fcm sub/unsub error'', Str ''r'', UidV 7, Str ''d1'']]"
    by (simp add: example_response_def)
  have "\<exists>e\<in>set (Errors (example_response [0, 1])). Index e < 0 \<or> int (length [''d1'']) \<le> Index e"
    by (simp add: example_response_def)
  with handleSubErrors_in_range [of "example_response [0, 1]" 7 "[''d1'']"] f(2)
  have c: "Panic \<in> set (handleSubErrors (example_response [0, 1]) 7 [''d1''])"
    by blast
  have "\<exists>e\<in>set (Errors (example_response [-1])). Index e < 0 \<or> int (length [''d1'']) \<le> Index e"
    by (simp add: example_response_def)
  with handleSubErrors_in_range [of "example_response [-1]" 7 "[''d1'']"] f(3)
  have d: "Panic \<in> set (handleSubErrors (example_response [-1]) 7 [''d1''])"
    by blast
  from a' b c d show ?thesis by blast
qed

section \<open>Properties of processSubscription\<close>

lemma topicEvent_is_call: "is_provider_call (topicEvent req devices c)"
  by (simp add: topicEvent_def)

lemma resolve_fixed_channel:
  "Channel req \<noteq> [] \<Longrightarrow> resolve env req = (Channel req, DevicesForUser env (Uid req), [], [])"
  by (simp add: resolve_def)

lemma resolve_fixed_device:
  "Channel req = [] \<Longrightarrow> DeviceID req \<noteq> [] \<Longrightarrow>
   resolve env req = ([], [], DeviceID req, ChannelsForUser env (Uid req))"
  by (simp add: resolve_def)

lemma topic_result_no_calls:
  "provider_calls (case r of
       Inl err \<Rightarrow> [Log Warn [Str ''fcm: sub or upsub failed'', Flag u, ErrV err]]
     | Inr resp \<Rightarrow> handleSubErrors resp uid devices) = []"
  by (cases r) (simp_all add: handleSubErrors_no_calls, simp add: provider_calls_def)

lemma channels_loop_calls:
  assumes "n \<le> length cs"
    and "\<forall>j<n. \<exists>resp. clientTopic env req (k + j) devices (cs ! j) = Inr resp \<and> well_indexed resp devices"
    and "n = length cs \<or> (\<exists>err. clientTopic env req (k + n) devices (cs ! n) = Inl err)"
  shows "provider_calls (channels_loop env req devices k cs) = map (topicEvent req devices) (take (Suc n) cs)"
  using assms
proof (induction cs arbitrary: k n)
  case Nil
  then show ?case by (simp add: provider_calls_def)
next
  case (Cons c cs)
  show ?case
  proof (cases n)
    case 0
    with Cons.prems(3) obtain err where "clientTopic env req k devices c = Inl err" by auto
    with 0 show ?thesis by (simp add: provider_calls_def topicEvent_is_call)
  next
    case (Suc n')
    from Cons.prems(2) Suc obtain resp where
      r: "clientTopic env req k devices c = Inr resp" and w: "well_indexed resp devices"
      by force
    from w have np: "Panic \<notin> set (handleSubErrors resp (Uid req) devices)"
      by (simp add: handleSubErrors_panic)
    have le: "n' \<le> length cs" using Cons.prems(1) Suc by simp
    have ok: "\<forall>j<n'. \<exists>resp. clientTopic env req (Suc k + j) devices (cs ! j) = Inr resp \<and> well_indexed resp devices"
    proof (intro allI impI)
      fix j assume "j < n'"
      with Cons.prems(2) Suc
      have "\<exists>resp. clientTopic env req (k + Suc j) devices ((c # cs) ! Suc j) = Inr resp \<and> well_indexed resp devices"
        by blast
      then show "\<exists>resp. clientTopic env req (Suc k + j) devices (cs ! j) = Inr resp \<and> well_indexed resp devices"
        by simp
    qed
    have st: "n' = length cs \<or> (\<exists>err. clientTopic env req (Suc k + n') devices (cs ! n') = Inl err)"
      using Cons.prems(3) Suc by simp
    from Cons.IH [OF le ok st]
    have ih: "provider_calls (channels_loop env req devices (Suc k) cs) = map (topicEvent req devices) (take (Suc n') cs)" .
    have hs: "filter is_provider_call (handleSubErrors resp (Uid req) devices) = []"
      using handleSubErrors_no_calls [of resp "Uid req" devices] by (simp add: provider_calls_def)
    from r np ih hs Suc show ?thesis
      by (simp add: provider_calls_def topicEvent_is_call Let_def)
  qed
qed

lemma channels_loop_no_Err:
  "filter (is_log Err) (channels_loop env req devices k cs) = []"
proof (induction cs arbitrary: k)
  case Nil
  show ?case by simp
next
  case (Cons c cs)
  have "filter (is_log Err) (handleSubErrors resp (Uid req) devices) = []" for resp
    by (rule handleSubErrors_no_Err)
  with Cons.IH [of "Suc k"] show ?case
    by (cases "clientTopic env req k devices c") (simp_all add: topicEvent_def Let_def)
qed

lemma channels_loop_ignores_Subscribe:
  "Unsub req \<Longrightarrow>
   channels_loop (env\<lparr>SubscribeToTopic := f\<rparr>) req devices k cs = channels_loop env req devices k cs"
  by (induction cs arbitrary: k) (simp_all add: clientTopic_def Let_def split: sum.split)

lemma channels_loop_ignores_Unsubscribe:
  "\<not> Unsub req \<Longrightarrow>
   channels_loop (env\<lparr>UnsubscribeFromTopic := f\<rparr>) req devices k cs = channels_loop env req devices k cs"
  by (induction cs arbitrary: k) (simp_all add: clientTopic_def Let_def split: sum.split)

lemma processSubscription_ignores_Subscribe:
  "Unsub req \<Longrightarrow> processSubscription (env\<lparr>SubscribeToTopic := f\<rparr>) req = processSubscription env req"
  by (simp add: processSubscription_def resolve_def clientTopic_def channels_loop_ignores_Subscribe
        Let_def)

lemma processSubscription_ignores_Unsubscribe:
  "\<not> Unsub req \<Longrightarrow> processSubscription (env\<lparr>UnsubscribeFromTopic := f\<rparr>) req = processSubscription env req"
  by (simp add: processSubscription_def resolve_def clientTopic_def channels_loop_ignores_Unsubscribe
        Let_def)

text \<open>
  C6.  A request with a fixed channel whose user has \<open>N\<close> devices, \<open>1 \<le> N \<le> 1000\<close>,
  makes exactly one call to the client, with all \<open>N\<close> tokens and that channel:
  \<open>UnsubscribeFromTopic\<close> when \<open>Unsub\<close> is set, \<open>SubscribeToTopic\<close> otherwise.  The
  operation called is the one whose answer is handled: with \<open>Unsub\<close> set the trace is
  the unsubscribe call followed by the handling of what \<open>UnsubscribeFromTopic\<close> answers,
  and it is the same whatever \<open>SubscribeToTopic\<close> would answer; with \<open>Unsub\<close> unset the
  two operations change places.
\<close>

theorem processSubscription_fixed_channel:
  assumes ch: "Channel req \<noteq> []"
    and ds: "DevicesForUser env (Uid req) = devices"
    and ne: "devices \<noteq> []"
    and le: "length devices \<le> 1000"
  shows "provider_calls (processSubscription env req) =
           [if Unsub req then CallUnsubscribeFromTopic devices (Channel req)
            else CallSubscribeToTopic devices (Channel req)] \<and>
         processSubscription env req =
           topicEvent req devices (Channel req) #
             (case clientTopic env req 0 devices (Channel req) of
                Inl err \<Rightarrow> [Log Warn [Str ''fcm: sub or upsub failed'', Flag (Unsub req), ErrV err]]
              | Inr resp \<Rightarrow> handleSubErrors resp (Uid req) devices) \<and>
         (Unsub req \<longrightarrow>
            processSubscription env req =
              CallUnsubscribeFromTopic devices (Channel req) #
                (case UnsubscribeFromTopic env 0 devices (Channel req) of
                   Inl err \<Rightarrow> [Log Warn [Str ''fcm: sub or upsub failed'', Flag True, ErrV err]]
                 | Inr resp \<Rightarrow> handleSubErrors resp (Uid req) devices)) \<and>
         (\<not> Unsub req \<longrightarrow>
            processSubscription env req =
              CallSubscribeToTopic devices (Channel req) #
                (case SubscribeToTopic env 0 devices (Channel req) of
                   Inl err \<Rightarrow> [Log Warn [Str ''fcm: sub or upsub failed'', Flag False, ErrV err]]
                 | Inr resp \<Rightarrow> handleSubErrors resp (Uid req) devices)) \<and>
         (Unsub req \<longrightarrow>
            processSubscription (env\<lparr>SubscribeToTopic := f\<rparr>) req = processSubscription env req) \<and>
         (\<not> Unsub req \<longrightarrow>
            processSubscription (env\<lparr>UnsubscribeFromTopic := f\<rparr>) req = processSubscription env req)"
proof -
  have tr: "processSubscription env req =
           topicEvent req devices (Channel req) #
             (case clientTopic env req 0 devices (Channel req) of
                Inl err \<Rightarrow> [Log Warn [Str ''fcm: sub or upsub failed'', Flag (Unsub req), ErrV err]]
              | Inr resp \<Rightarrow> handleSubErrors resp (Uid req) devices)"
    using ch ds ne le
    by (simp add: processSubscription_def resolve_fixed_channel subBatchSize_def Let_def)
  have pc: "provider_calls (processSubscription env req) = [topicEvent req devices (Channel req)]"
    using topic_result_no_calls [where r = "clientTopic env req 0 devices (Channel req)" and u = "Unsub req"
        and uid = "Uid req" and devices = devices]
    by (simp add: tr provider_calls_def topicEvent_is_call)
  have un: "processSubscription env req =
              CallUnsubscribeFromTopic devices (Channel req) #
                (case UnsubscribeFromTopic env 0 devices (Channel req) of
                   Inl err \<Rightarrow> [Log Warn [Str ''fcm: sub or upsub failed'', Flag True, ErrV err]]
                 | Inr resp \<Rightarrow> handleSubErrors resp (Uid req) devices)" if "Unsub req"
    using that by (simp add: tr topicEvent_def clientTopic_def split: sum.split)
  have su: "processSubscription env req =
              CallSubscribeToTopic devices (Channel req) #
                (case SubscribeToTopic env 0 devices (Channel req) of
                   Inl err \<Rightarrow> [Log Warn [Str ''fcm: sub or upsub failed'', Flag False, ErrV err]]
                 | Inr resp \<Rightarrow> handleSubErrors resp (Uid req) devices)" if "\<not> Unsub req"
    using that by (simp add: tr topicEvent_def clientTopic_def split: sum.split)
  have pc': "provider_calls (processSubscription env req) =
           [if Unsub req then CallUnsubscribeFromTopic devices (Channel req)
            else CallSubscribeToTopic devices (Channel req)]"
    using pc by (simp add: topicEvent_def)
  have ig1: "Unsub req \<longrightarrow>
      processSubscription (env\<lparr>SubscribeToTopic := f\<rparr>) req = processSubscription env req"
    by (simp add: processSubscription_ignores_Subscribe)
  have ig2: "\<not> Unsub req \<longrightarrow>
      processSubscription (env\<lparr>UnsubscribeFromTopic := f\<rparr>) req = processSubscription env req"
    by (simp add: processSubscription_ignores_Unsubscribe)
  from un have un': "Unsub req \<longrightarrow>
            processSubscription env req =
              CallUnsubscribeFromTopic devices (Channel req) #
                (case UnsubscribeFromTopic env 0 devices (Channel req) of
                   Inl err \<Rightarrow> [Log Warn [Str ''fcm: sub or upsub failed'', Flag True, ErrV err]]
                 | Inr resp \<Rightarrow> handleSubErrors resp (Uid req) devices)"
    by (rule impI)
  from su have su': "\<not> Unsub req \<longrightarrow>
            processSubscription env req =
              CallSubscribeToTopic devices (Channel req) #
                (case SubscribeToTopic env 0 devices (Channel req) of
                   Inl err \<Rightarrow> [Log Warn [Str ''fcm: sub or upsub failed'', Flag False, ErrV err]]
                 | Inr resp \<Rightarrow> handleSubErrors resp (Uid req) devices)"
    by (rule impI)
  show ?thesis
    by (intro conjI) (rule pc' tr un' su' ig1 ig2)+
qed

theorem processSubscription_fixed_channel_witness:
  "provider_calls (processSubscription
       (example_env (\<lambda>i. None) (\<lambda>k. Inr (example_response [])) [''d1'', ''d2'', ''d3''] [])
       (example_req [] ''topicA'' False))
     = [CallSubscribeToTopic [''d1'', ''d2'', ''d3''] ''topicA''] \<and>
   provider_calls (processSubscription
       (example_env (\<lambda>i. None) (\<lambda>k. Inr (example_response [])) [''d1'', ''d2'', ''d3''] [])
       (example_req [] ''topicA'' True))
     = [CallUnsubscribeFromTopic [''d1'', ''d2'', ''d3''] ''topicA''] \<and>
   processSubscription
       ((example_env (\<lambda>i. None) (\<lambda>k. Inr (example_response [])) [''d1'', ''d2'', ''d3''] [])
          \<lparr>SubscribeToTopic := \<lambda>k ds c. Inl (example_error True False)\<rparr>)
       (example_req [] ''topicA'' True)
     = [CallUnsubscribeFromTopic [''d1'', ''d2'', ''d3''] ''topicA''] \<and>
   processSubscription
       ((example_env (\<lambda>i. None) (\<lambda>k. Inr (example_response [])) [''d1'', ''d2'', ''d3''] [])
          \<lparr>UnsubscribeFromTopic := \<lambda>k ds c. Inl (example_error True False)\<rparr>)
       (example_req [] ''topicA'' False)
     = [CallSubscribeToTopic [''d1'', ''d2'', ''d3''] ''topicA''] \<and>
   processSubscription
       ((example_env (\<lambda>i. None) (\<lambda>k. Inr (example_response [])) [''d1'', ''d2'', ''d3''] [])
          \<lparr>UnsubscribeFromTopic := \<lambda>k ds c. Inl (example_error True False)\<rparr>)
       (example_req [] ''topicA'' True)
     = [CallUnsubscribeFromTopic [''d1'', ''d2'', ''d3''] ''topicA'',
        Log Warn [Str ''fcm: sub or upsub failed'', Flag True, ErrV (example_error True False)]]"
proof -
  let ?env = "example_env (\<lambda>i. None) (\<lambda>k. Inr (example_response [])) [''d1'', ''d2'', ''d3''] []"
  let ?fail = "\<lambda>(k::nat) (ds::string list) (c::string). Inl (example_error True False) :: fcm_error + TopicManagementResponse"
  let ?ds = "[''d1'', ''d2'', ''d3'']"
  have ch: "\<And>u. Channel (example_req [] ''topicA'' u) \<noteq> []"
    by (simp add: example_req_def)
  have ds: "\<And>u. DevicesForUser ?env (Uid (example_req [] ''topicA'' u)) = ?ds"
    by (simp add: example_env_def)
  have ds': "\<And>u. DevicesForUser (?env\<lparr>UnsubscribeFromTopic := ?fail\<rparr>) (Uid (example_req [] ''topicA'' u)) = ?ds"
    by (simp add: example_env_def)
  have ne: "?ds \<noteq> []" and le: "length ?ds \<le> 1000"
    by simp_all
  have un: "Unsub (example_req [] ''topicA'' True)" and su: "\<not> Unsub (example_req [] ''topicA'' False)"
    by (simp_all add: example_req_def)
  have chn: "\<And>u. Channel (example_req [] ''topicA'' u) = ''topicA''"
    and uid: "\<And>u. Uid (example_req [] ''topicA'' u) = 7"
    by (simp_all add: example_req_def)
  have ok: "handleSubErrors (example_response []) 7 ?ds = []"
    by (simp add: handleSubErrors_def example_response_def)
  note t_sub = processSubscription_fixed_channel [OF ch ds ne le, of False ?fail]
  note t_uns = processSubscription_fixed_channel [OF ch ds ne le, of True ?fail]
  note t_bad = processSubscription_fixed_channel [OF ch ds' ne le, of True ?fail]
  from t_sub [THEN conjunct1]
  have a: "provider_calls (processSubscription ?env (example_req [] ''topicA'' False))
     = [CallSubscribeToTopic ?ds ''topicA'']"
    by (simp add: chn su)
  from t_uns [THEN conjunct1]
  have b: "provider_calls (processSubscription ?env (example_req [] ''topicA'' True))
     = [CallUnsubscribeFromTopic ?ds ''topicA'']"
    by (simp add: chn un)
  from t_uns un
  have "processSubscription ?env (example_req [] ''topicA'' True) =
          CallUnsubscribeFromTopic ?ds (Channel (example_req [] ''topicA'' True)) #
            (case UnsubscribeFromTopic ?env 0 ?ds (Channel (example_req [] ''topicA'' True)) of
               Inl err \<Rightarrow> [Log Warn [Str ''fcm: sub or upsub failed'', Flag True, ErrV err]]
             | Inr resp \<Rightarrow> handleSubErrors resp (Uid (example_req [] ''topicA'' True)) ?ds)"
    and c0: "processSubscription (?env\<lparr>SubscribeToTopic := ?fail\<rparr>) (example_req [] ''topicA'' True)
      = processSubscription ?env (example_req [] ''topicA'' True)"
    by blast+
  then have c1: "processSubscription ?env (example_req [] ''topicA'' True) = [CallUnsubscribeFromTopic ?ds ''topicA'']"
    by (simp add: chn uid ok example_env_def)
  from c0 c1 have c: "processSubscription (?env\<lparr>SubscribeToTopic := ?fail\<rparr>) (example_req [] ''topicA'' True)
      = [CallUnsubscribeFromTopic ?ds ''topicA'']"
    by simp
  from t_sub su
  have "processSubscription ?env (example_req [] ''topicA'' False) =
          CallSubscribeToTopic ?ds (Channel (example_req [] ''topicA'' False)) #
            (case SubscribeToTopic ?env 0 ?ds (Channel (example_req [] ''topicA'' False)) of
               Inl err \<Rightarrow> [Log Warn [Str ''fcm: sub or upsub failed'', Flag False, ErrV err]]
             | Inr resp \<Rightarrow> handleSubErrors resp (Uid (example_req [] ''topicA'' False)) ?ds)"
    and d0: "processSubscription (?env\<lparr>UnsubscribeFromTopic := ?fail\<rparr>) (example_req [] ''topicA'' False)
      = processSubscription ?env (example_req [] ''topicA'' False)"
    by blast+
  then have d1: "processSubscription ?env (example_req [] ''topicA'' False) = [CallSubscribeToTopic ?ds ''topicA'']"
    by (simp add: chn uid ok example_env_def)
  from d0 d1 have d: "processSubscription (?env\<lparr>UnsubscribeFromTopic := ?fail\<rparr>) (example_req [] ''topicA'' False)
      = [CallSubscribeToTopic ?ds ''topicA'']"
    by simp
  from t_bad un
  have "processSubscription (?env\<lparr>UnsubscribeFromTopic := ?fail\<rparr>) (example_req [] ''topicA'' True) =
          CallUnsubscribeFromTopic ?ds (Channel (example_req [] ''topicA'' True)) #
            (case UnsubscribeFromTopic (?env\<lparr>UnsubscribeFromTopic := ?fail\<rparr>) 0 ?ds (Channel (example_req [] ''topicA'' True)) of
               Inl err \<Rightarrow> [Log Warn [Str ''fcm: sub or upsub failed'', Flag True, ErrV err]]
             | Inr resp \<Rightarrow> handleSubErrors resp (Uid (example_req [] ''topicA'' True)) ?ds)"
    by blast
  then have e: "processSubscription (?env\<lparr>UnsubscribeFromTopic := ?fail\<rparr>) (example_req [] ''topicA'' True)
     = [CallUnsubscribeFromTopic ?ds ''topicA'',
        Log Warn [Str ''fcm: sub or upsub failed'', Flag True, ErrV (example_error True False)]]"
    by (simp add: chn)
  from a b c d e show ?thesis by blast
qed

text \<open>
  C5.  A request with a fixed channel whose user has more than 1000 devices is not
  rejected: a warning is logged first, and the single call to the client carries the
  first 1000 devices of the list, exactly 1000 tokens.
\<close>

theorem processSubscription_truncates:
  assumes ch: "Channel req \<noteq> []"
    and ds: "DevicesForUser env (Uid req) = devices"
    and gt: "length devices > 1000"
  shows "provider_calls (processSubscription env req) =
           [topicEvent req (take 1000 devices) (Channel req)] \<and>
         length (take 1000 devices) = 1000 \<and>
         processSubscription env req =
           Log Warn [Str ''fcm: user'', Str (UserId env (Uid req)), Str ''has more than'',
                     Num 1000, Str ''devices''] #
           topicEvent req (take 1000 devices) (Channel req) #
             (case clientTopic env req 0 (take 1000 devices) (Channel req) of
                Inl err \<Rightarrow> [Log Warn [Str ''fcm: sub or upsub failed'', Flag (Unsub req), ErrV err]]
              | Inr resp \<Rightarrow> handleSubErrors resp (Uid req) (take 1000 devices))"
proof -
  from gt have ne: "devices \<noteq> []" by auto
  have tr: "processSubscription env req =
           Log Warn [Str ''fcm: user'', Str (UserId env (Uid req)), Str ''has more than'',
                     Num 1000, Str ''devices''] #
           topicEvent req (take 1000 devices) (Channel req) #
             (case clientTopic env req 0 (take 1000 devices) (Channel req) of
                Inl err \<Rightarrow> [Log Warn [Str ''fcm: sub or upsub failed'', Flag (Unsub req), ErrV err]]
              | Inr resp \<Rightarrow> handleSubErrors resp (Uid req) (take 1000 devices))"
    using ch ds gt ne
    by (simp add: processSubscription_def resolve_fixed_channel subBatchSize_def Let_def)
  have "provider_calls (processSubscription env req) = [topicEvent req (take 1000 devices) (Channel req)]"
    using topic_result_no_calls [where r = "clientTopic env req 0 (take 1000 devices) (Channel req)"
        and u = "Unsub req" and uid = "Uid req" and devices = "take 1000 devices"]
    by (simp add: tr provider_calls_def topicEvent_is_call)
  moreover have "length (take 1000 devices) = 1000" using gt by simp
  ultimately show ?thesis using tr by simp
qed

theorem processSubscription_truncates_witness:
  "provider_calls (processSubscription
       (example_env (\<lambda>i. None) (\<lambda>k. Inr (example_response [])) (replicate 1001 ''d'') [])
       (example_req [] ''topicA'' False))
     = [CallSubscribeToTopic (replicate 1000 ''d'') ''topicA''] \<and>
   length (take 1000 (replicate 1001 ''d'')) = 1000 \<and>
   hd (processSubscription
       (example_env (\<lambda>i. None) (\<lambda>k. Inr (example_response [])) (replicate 1001 ''d'') [])
       (example_req [] ''topicA'' False))
     = Log Warn [Str ''fcm: user'', Str ''usr'', Str ''has more than'', Num 1000, Str ''devices'']"
proof -
  let ?env = "example_env (\<lambda>i. None) (\<lambda>k. Inr (example_response [])) (replicate 1001 ''d'') []"
  let ?req = "example_req [] ''topicA'' False"
  have ch: "Channel ?req \<noteq> []"
    by (simp add: example_req_def)
  have ds: "DevicesForUser ?env (Uid ?req) = replicate 1001 ''d''"
    by (simp add: example_env_def)
  have gt: "length (replicate 1001 ''d'') > 1000" by simp
  have te: "\<And>ds. topicEvent ?req ds (Channel ?req) = CallSubscribeToTopic ds ''topicA''"
    by (simp add: topicEvent_def example_req_def)
  have ui: "UserId ?env (Uid ?req) = ''usr''" by (simp add: example_env_def)
  note t = processSubscription_truncates [OF ch ds gt]
  from t [THEN conjunct1]
  have a: "provider_calls (processSubscription ?env ?req) = [CallSubscribeToTopic (replicate 1000 ''d'') ''topicA'']"
    by (simp add: te)
  from t [THEN conjunct2, THEN conjunct1]
  have b: "length (take 1000 (replicate 1001 ''d'')) = 1000" .
  from t [THEN conjunct2, THEN conjunct2]
  have c: "hd (processSubscription ?env ?req) =
       Log Warn [Str ''fcm: user'', Str ''usr'', Str ''has more than'', Num 1000, Str ''devices'']"
    by (simp add: ui)
  from a b c show ?thesis by blast
qed

text \<open>
  C4.  A request with a fixed device (and no channel) whose user has the channels
  \<open>c\<^sub>1 \<dots> c\<^sub>M\<close>, \<open>M \<ge> 1\<close>, calls the client once per channel, in the order of the list,
  each time with the one-element device list \<open>[DeviceID]\<close>, as long as the calls succeed
  (with responses whose reported indexes lie inside that list, see C9).  When the first
  \<open>n\<close> calls succeed and the next one fails outright, exactly \<open>n + 1\<close> calls are made and
  the later channels are never attempted; when all \<open>M\<close> succeed, exactly \<open>M\<close> are made.
\<close>

theorem processSubscription_fixed_device:
  assumes ch: "Channel req = []"
    and dv: "DeviceID req \<noteq> []"
    and cs: "ChannelsForUser env (Uid req) = channels"
    and ne: "channels \<noteq> []"
    and n: "n \<le> length channels"
    and ok: "\<forall>j<n. \<exists>resp. clientTopic env req j [DeviceID req] (channels ! j) = Inr resp \<and>
                           well_indexed resp [DeviceID req]"
    and st: "n = length channels \<or> (\<exists>err. clientTopic env req n [DeviceID req] (channels ! n) = Inl err)"
  shows "provider_calls (processSubscription env req) =
           map (topicEvent req [DeviceID req]) (take (Suc n) channels) \<and>
         length (provider_calls (processSubscription env req)) = min (Suc n) (length channels)"
proof -
  have tr: "processSubscription env req = channels_loop env req [DeviceID req] 0 channels"
    using ch dv cs ne
    by (simp add: processSubscription_def resolve_fixed_device subBatchSize_def Let_def)
  have ok': "\<forall>j<n. \<exists>resp. clientTopic env req (0 + j) [DeviceID req] (channels ! j) = Inr resp \<and>
                           well_indexed resp [DeviceID req]"
    using ok by simp
  have st': "n = length channels \<or> (\<exists>err. clientTopic env req (0 + n) [DeviceID req] (channels ! n) = Inl err)"
    using st by simp
  from channels_loop_calls [OF n ok' st']
  have "provider_calls (processSubscription env req) = map (topicEvent req [DeviceID req]) (take (Suc n) channels)"
    by (simp add: tr)
  then show ?thesis by simp
qed

theorem processSubscription_fixed_device_witness:
  "provider_calls (processSubscription
       (example_env (\<lambda>i. None) (\<lambda>k. if k = 1 then Inl (example_error True False) else Inr (example_response []))
          [] [''t1'', ''t2'', ''t3''])
       (example_req ''d1'' [] False))
     = [CallSubscribeToTopic [''d1''] ''t1'', CallSubscribeToTopic [''d1''] ''t2''] \<and>
   provider_calls (processSubscription
       (example_env (\<lambda>i. None) (\<lambda>k. Inr (example_response [])) [] [''c1'', ''c2''])
       (example_req ''d1'' [] True))
     = [CallUnsubscribeFromTopic [''d1''] ''c1'', CallUnsubscribeFromTopic [''d1''] ''c2'']"
proof -
  let ?env = "example_env (\<lambda>i. None) (\<lambda>k. if k = 1 then Inl (example_error True False) else Inr (example_response []))
          [] [''t1'', ''t2'', ''t3'']"
  let ?env2 = "example_env (\<lambda>i. None) (\<lambda>k. Inr (example_response [])) [] [''c1'', ''c2'']"
  let ?req = "example_req ''d1'' [] False" and ?req2 = "example_req ''d1'' [] True"
  have wi: "well_indexed (example_response []) [''d1'']"
    by (simp add: well_indexed_def example_response_def)
  have ch: "Channel ?req = []" and dv: "DeviceID ?req \<noteq> []"
    by (simp_all add: example_req_def)
  have cs: "ChannelsForUser ?env (Uid ?req) = [''t1'', ''t2'', ''t3'']"
    by (simp add: example_env_def)
  have ne: "[''t1'', ''t2'', ''t3''] \<noteq> []" and n: "(1::nat) \<le> length [''t1'', ''t2'', ''t3'']"
    by simp_all
  have ok: "\<forall>j<1. \<exists>resp. clientTopic ?env ?req j [DeviceID ?req] ([''t1'', ''t2'', ''t3''] ! j) = Inr resp \<and>
                           well_indexed resp [DeviceID ?req]"
    using wi by (simp add: clientTopic_def example_env_def example_req_def)
  have st: "1 = length [''t1'', ''t2'', ''t3''] \<or>
      (\<exists>err. clientTopic ?env ?req 1 [DeviceID ?req] ([''t1'', ''t2'', ''t3''] ! 1) = Inl err)"
    by (simp add: clientTopic_def example_env_def example_req_def)
  from processSubscription_fixed_device [OF ch dv cs ne n ok st, THEN conjunct1]
  have a: "provider_calls (processSubscription ?env ?req)
     = [CallSubscribeToTopic [''d1''] ''t1'', CallSubscribeToTopic [''d1''] ''t2'']"
    by (simp add: topicEvent_def example_req_def)
  have ch2: "Channel ?req2 = []" and dv2: "DeviceID ?req2 \<noteq> []"
    by (simp_all add: example_req_def)
  have cs2: "ChannelsForUser ?env2 (Uid ?req2) = [''c1'', ''c2'']"
    by (simp add: example_env_def)
  have ne2: "[''c1'', ''c2''] \<noteq> []" and n2: "(2::nat) \<le> length [''c1'', ''c2'']"
    by simp_all
  have ok2: "\<forall>j<2. \<exists>resp. clientTopic ?env2 ?req2 j [DeviceID ?req2] ([''c1'', ''c2''] ! j) = Inr resp \<and>
                           well_indexed resp [DeviceID ?req2]"
    using wi by (simp add: clientTopic_def example_env_def example_req_def)
  have st2: "2 = length [''c1'', ''c2''] \<or>
      (\<exists>err. clientTopic ?env2 ?req2 2 [DeviceID ?req2] ([''c1'', ''c2''] ! 2) = Inl err)"
    by simp
  from processSubscription_fixed_device [OF ch2 dv2 cs2 ne2 n2 ok2 st2, THEN conjunct1]
  have b: "provider_calls (processSubscription ?env2 ?req2)
     = [CallUnsubscribeFromTopic [''d1''] ''c1'', CallUnsubscribeFromTopic [''d1''] ''c2'']"
    by (simp add: topicEvent_def example_req_def)
  from a b show ?thesis by blast
qed

text \<open>
  C1, as the specification states it, fails: a request with neither a channel nor a
  device resolves to nothing on both dimensions and makes no call to the client, but
  it returns at the guard of lines 172 to 175 and logs no error.
\<close>

theorem processSubscription_neither_counterexample:
  "resolve (example_env (\<lambda>i. None) (\<lambda>k. Inr (example_response [])) [] []) (example_req [] [] False)
     = ([], [], [], []) \<and>
   \<not> (provider_calls (processSubscription
            (example_env (\<lambda>i. None) (\<lambda>k. Inr (example_response [])) [] []) (example_req [] [] False)) = [] \<and>
       filter (is_log Err) (processSubscription
            (example_env (\<lambda>i. None) (\<lambda>k. Inr (example_response [])) [] []) (example_req [] [] False)) \<noteq> [])"
  by (simp add: processSubscription_def resolve_def example_req_def)

text \<open>
  C1, amended.  No request resolves to a non-empty device list and a non-empty channel
  list at once.  A request whose resolution yields neither list (and, more generally,
  one that has no device at all or no channel at all) makes no call to the client and
  returns silently: its trace is empty.  No request logs the error of line 221.
\<close>

theorem processSubscription_guard_silent:
  assumes res: "resolve env req = (chan, devices, dev, channels)"
  shows "\<not> (devices \<noteq> [] \<and> channels \<noteq> []) \<and>
         (devices = [] \<and> channels = [] \<longrightarrow>
            processSubscription env req = [] \<and> provider_calls (processSubscription env req) = []) \<and>
         ((devices = [] \<and> dev = []) \<or> (channels = [] \<and> chan = []) \<longrightarrow>
            processSubscription env req = []) \<and>
         filter (is_log Err) (processSubscription env req) = []"
proof (intro conjI impI)
  from res show "\<not> (devices \<noteq> [] \<and> channels \<noteq> [])"
    by (auto simp: resolve_def split: if_splits)
next
  assume "devices = [] \<and> channels = []"
  with res show "processSubscription env req = []"
    by (auto simp: processSubscription_def resolve_def split: if_splits)
  then show "provider_calls (processSubscription env req) = []"
    by (simp add: provider_calls_def)
next
  assume "(devices = [] \<and> dev = []) \<or> (channels = [] \<and> chan = [])"
  with res show "processSubscription env req = []"
    by (auto simp: processSubscription_def)
next
  have a: "filter (is_log Err) (case r of
       Inl err \<Rightarrow> [Log Warn [Str ''fcm: sub or upsub failed'', Flag u, ErrV err]]
     | Inr resp \<Rightarrow> handleSubErrors resp uid ds) = []" for r u uid ds
    by (cases r) (simp_all add: handleSubErrors_no_Err)
  show "filter (is_log Err) (processSubscription env req) = []"
  proof (cases "Channel req \<noteq> []")
    case True
    then show ?thesis
      by (simp add: processSubscription_def resolve_fixed_channel Let_def a topicEvent_def subBatchSize_def)
  next
    case False
    show ?thesis
    proof (cases "DeviceID req \<noteq> []")
      case True
      with False show ?thesis
        by (simp add: processSubscription_def resolve_fixed_device Let_def channels_loop_no_Err subBatchSize_def)
    next
      case d: False
      with False show ?thesis
        by (simp add: processSubscription_def resolve_def)
    qed
  qed
qed

theorem processSubscription_guard_silent_witness:
  "processSubscription (example_env (\<lambda>i. None) (\<lambda>k. Inr (example_response [])) [] []) (example_req [] [] False) = [] \<and>
   provider_calls (processSubscription
      (example_env (\<lambda>i. None) (\<lambda>k. Inr (example_response [])) [] []) (example_req [] [] False)) = [] \<and>
   processSubscription (example_env (\<lambda>i. None) (\<lambda>k. Inr (example_response [])) [] [''c1'']) (example_req [] ''topicA'' False) = []"
proof -
  let ?env = "example_env (\<lambda>i. None) (\<lambda>k. Inr (example_response [])) [] []"
  let ?env2 = "example_env (\<lambda>i. None) (\<lambda>k. Inr (example_response [])) [] [''c1'']"
  have r: "resolve ?env (example_req [] [] False) = ([], [], [], [])"
    by (simp add: resolve_def example_req_def)
  have r2: "resolve ?env2 (example_req [] ''topicA'' False) = (''topicA'', [], [], [])"
    by (simp add: resolve_def example_req_def example_env_def)
  from processSubscription_guard_silent [OF r]
  have a: "processSubscription ?env (example_req [] [] False) = [] \<and>
           provider_calls (processSubscription ?env (example_req [] [] False)) = []"
    by blast
  from processSubscription_guard_silent [OF r2]
  have b: "processSubscription ?env2 (example_req [] ''topicA'' False) = []"
    by blast
  from a b show ?thesis by blast
qed

section \<open>Properties of the handler\<close>

text \<open>
  C10.  \<open>Stop\<close> returns exactly when the channel \<open>stop\<close> exists and has a free slot.  It
  then appends \<open>true\<close> to that channel and changes no other field of the handler: the
  two ingress queues are as before, so \<open>IsReady\<close> answers as it did before, and still
  answers true on a handler that was ready.
\<close>

theorem Stop_frame:
  "((\<exists>h'. Stop h = Some h') = (\<exists>n buf. stop h = Some (n, buf) \<and> length buf < n)) \<and>
   (\<forall>h'. Stop h = Some h' \<longrightarrow>
      input h' = input h \<and> channel h' = channel h \<and> ctx h' = ctx h \<and> client h' = client h \<and>
      h' = h\<lparr>stop := stop h'\<rparr> \<and>
      (\<exists>n buf. stop h = Some (n, buf) \<and> length buf < n \<and> stop h' = Some (n, buf @ [True])) \<and>
      IsReady h' = IsReady h \<and>
      (IsReady h \<longrightarrow> IsReady h'))"
  by (auto simp: Stop_def chan_send_def IsReady_def split: option.splits prod.splits if_splits)

theorem Stop_frame_witness:
  "IsReady (Init_chans \<lparr>input = None, channel = None, stop = None, ctx = Some 0, client = Some 1\<rparr> :: unit Handler) \<and>
   Stop (Init_chans \<lparr>input = None, channel = None, stop = None, ctx = Some 0, client = Some 1\<rparr> :: unit Handler)
     = Some \<lparr>input = Some (1024, []), channel = Some (1024, []), stop = Some (1, [True]),
             ctx = Some 0, client = Some 1\<rparr> \<and>
   IsReady (\<lparr>input = Some (1024, []), channel = Some (1024, []), stop = Some (1, [True]),
             ctx = Some 0, client = Some 1\<rparr> :: unit Handler)"
proof -
  let ?h = "Init_chans \<lparr>input = None, channel = None, stop = None, ctx = Some 0, client = Some 1\<rparr> :: unit Handler"
  let ?h' = "\<lparr>input = Some (1024, []), channel = Some (1024, []), stop = Some (1, [True]),
             ctx = Some 0, client = Some 1\<rparr> :: unit Handler"
  have s: "Stop ?h = Some ?h'"
    by (simp add: Stop_def chan_send_def Init_chans_def make_chan_def bufferSize_def)
  have r: "IsReady ?h"
    by (simp add: IsReady_def Init_chans_def make_chan_def)
  from Stop_frame [of ?h] s r have "IsReady ?h'" by blast
  with s r show ?thesis by blast
qed

end
